theory Spec2Isabelle
  imports Complex_Main
begin

section \<open>The resilient connection manager: WebSocketService.ts\<close>

text \<open>
  The class \<^verbatim>\<open>WebSocketService\<close> of
  \<^verbatim>\<open>src/frontend/src/services/WebSocketService.ts\<close> is embedded with explicit
  state passing. One record holds the private fields of the service, the part of
  the browser it talks to (sockets, promises, timeouts) and what an observer can
  see of it (emitted events, transmitted frames, the console).
\<close>

subsection \<open>Values\<close>

text \<open>
  A JavaScript value as \<^verbatim>\<open>JSON.parse\<close> produces it, and \<^verbatim>\<open>undefined\<close> for a
  property that is absent. A number is kept as its canonical decimal rendering; the
  service never computes with the numbers of a frame.
\<close>

datatype jsval =
    JUndefined
  | JNull
  | JBool bool
  | JNum string
  | JStr string
  | JArr "jsval list"
  | JObj "(string \<times> jsval) list"

text \<open>The four values of \<^verbatim>\<open>WebSocket.readyState\<close>.\<close>

datatype readyState = CONNECTING | OPEN | CLOSING | CLOSED

text \<open>The reason a connection promise was rejected with (lines 58, 98, 111).\<close>

datatype reason =
    ConstructorError
  | ErrorDuringAttempt
  | ClosedWithCode int

datatype promiseState = Pending | Fulfilled | Rejected reason

text \<open>What \<^verbatim>\<open>emit\<close> passes to the subscribers after the event name.\<close>

datatype arg =
    NoArg
  | OneArg jsval
  | TransportEvent

datatype level = Log | Warn | Error

text \<open>
  One call of \<^verbatim>\<open>emit\<close>: the event name, the argument, the callbacks it invoked
  (callback and context, in the order of invocation), and what a callback sees of
  the service while it runs: the socket handle and the value of
  \<^verbatim>\<open>isConnected()\<close>.
\<close>

record emission =
  e_name :: string
  e_arg :: arg
  e_delivered :: "(nat \<times> nat) list"
  e_ws :: "nat option"
  e_connected :: bool

text \<open>
  \<^verbatim>\<open>JSON.parse\<close> and \<^verbatim>\<open>JSON.stringify\<close> belong to the platform; they are taken as
  parameters. \<open>None\<close> stands for the exception they throw.
\<close>

record platform =
  JSON_parse :: "string \<Rightarrow> jsval option"
  JSON_stringify :: "jsval \<Rightarrow> string option"

subsection \<open>The state\<close>

text \<open>
  Sockets, promises and timeouts are referred to by number. The first six fields
  are the mutable private fields of the class (lines 18 to 25);
  \<^verbatim>\<open>maxReconnectAttempts\<close> and \<^verbatim>\<open>reconnectDelay\<close> are never assigned after
  their initialisers and are constants below. \<open>listeners\<close> is the registry of the
  inherited event emitter. \<open>suspended\<close> holds the calls of \<^verbatim>\<open>sendCommand\<close> that
  wait at line 158, each with the promise it awaits.
\<close>

record world =
  ws :: "nat option"
  connectionPromise :: "nat option"
  resolveConnectionPromise :: "nat option"
  rejectConnectionPromise :: "nat option"
  reconnectAttempts :: nat
  reconnectTimeoutId :: "nat option"
  listeners :: "(string \<times> nat \<times> nat) list"
  readyStateOf :: "nat \<Rightarrow> readyState"
  socketsCreated :: nat
  listening :: "nat set"
  closeCalls :: "(nat \<times> int \<times> string) list"
  promiseOf :: "nat \<Rightarrow> promiseState"
  promisesCreated :: nat
  timers :: "(nat \<times> rat) list"
  timersCreated :: nat
  ctorThrows :: bool
  suspended :: "(nat option \<times> string \<times> jsval) list"
  emitted :: "emission list"
  transmitted :: "(nat \<times> string) list"
  console :: "(level \<times> string) list"

definition maxReconnectAttempts :: nat where
  "maxReconnectAttempts = 5"

definition reconnectDelay :: rat where
  "reconnectDelay = 3000"

text \<open>
  The state after the constructor (lines 18 to 29). Whether
  \<^verbatim>\<open>new WebSocket(WEBSOCKET_URL)\<close> throws is a property of the environment: the URL
  is a constant.
\<close>

definition initial_world :: "bool \<Rightarrow> world" where
  "initial_world throws =
     \<lparr> ws = None, connectionPromise = None, resolveConnectionPromise = None,
       rejectConnectionPromise = None, reconnectAttempts = 0,
       reconnectTimeoutId = None, listeners = [],
       readyStateOf = (\<lambda>_. CLOSED), socketsCreated = 0, listening = {},
       closeCalls = [], promiseOf = (\<lambda>_. Pending), promisesCreated = 0,
       timers = [], timersCreated = 0, ctorThrows = throws, suspended = [],
       emitted = [], transmitted = [], console = [] \<rparr>"

subsection \<open>The browser: console, promises, timeouts\<close>

definition console_say :: "level \<Rightarrow> string \<Rightarrow> world \<Rightarrow> world" where
  "console_say l s w = w\<lparr>console := console w @ [(l, s)]\<rparr>"

text \<open>\<^verbatim>\<open>new Promise(...)\<close>: a fresh pending promise.\<close>

definition new_Promise :: "world \<Rightarrow> nat \<times> world" where
  "new_Promise w =
     (promisesCreated w,
      w\<lparr>promiseOf := (promiseOf w)(promisesCreated w := Pending),
        promisesCreated := Suc (promisesCreated w)\<rparr>)"

text \<open>\<^verbatim>\<open>Promise.resolve()\<close>: a fresh promise that is already fulfilled.\<close>

definition Promise_resolve :: "world \<Rightarrow> nat \<times> world" where
  "Promise_resolve w =
     (promisesCreated w,
      w\<lparr>promiseOf := (promiseOf w)(promisesCreated w := Fulfilled),
        promisesCreated := Suc (promisesCreated w)\<rparr>)"

text \<open>The two functions a promise hands to its executor. A settled promise stays as it is.\<close>

definition resolve :: "nat \<Rightarrow> world \<Rightarrow> world" where
  "resolve p w =
     (if promiseOf w p = Pending then w\<lparr>promiseOf := (promiseOf w)(p := Fulfilled)\<rparr> else w)"

definition reject :: "nat \<Rightarrow> reason \<Rightarrow> world \<Rightarrow> world" where
  "reject p r w =
     (if promiseOf w p = Pending then w\<lparr>promiseOf := (promiseOf w)(p := Rejected r)\<rparr> else w)"

text \<open>
  \<^verbatim>\<open>setTimeout\<close> returns an identifier greater than zero; \<^verbatim>\<open>clearTimeout\<close> drops
  the timeout of that identifier. The callback of every timeout of the service is
  the one of line 138.
\<close>

definition setTimeout :: "rat \<Rightarrow> world \<Rightarrow> nat \<times> world" where
  "setTimeout delay w =
     (Suc (timersCreated w),
      w\<lparr>timers := timers w @ [(Suc (timersCreated w), delay)],
        timersCreated := Suc (timersCreated w)\<rparr>)"

definition clearTimeout :: "nat \<Rightarrow> world \<Rightarrow> world" where
  "clearTimeout t w = w\<lparr>timers := filter (\<lambda>e. fst e \<noteq> t) (timers w)\<rparr>"

text \<open>The test \<^verbatim>\<open>if (this.reconnectTimeoutId)\<close>: \<^verbatim>\<open>undefined\<close> and \<^verbatim>\<open>0\<close> are falsy.\<close>

definition truthy :: "nat option \<Rightarrow> bool" where
  "truthy t = (case t of None \<Rightarrow> False | Some n \<Rightarrow> n \<noteq> 0)"

subsection \<open>isConnected (lines 144 to 146)\<close>

definition isConnected :: "world \<Rightarrow> bool" where
  "isConnected w = (case ws w of None \<Rightarrow> False | Some s \<Rightarrow> readyStateOf w s = OPEN)"

subsection \<open>The inherited event emitter\<close>

text \<open>
  The service extends \<^verbatim>\<open>Phaser.Events.EventEmitter\<close>, a library class that is not
  under src/. Its three operations below follow section 4.4 of the specification.
  A callback is an observer: it is recorded with what it is given and what it sees
  of the service, and it does not call back into the service (the callbacks that
  \<^verbatim>\<open>GameScene.ts\<close> and the boot scene register only update the display).
\<close>

text \<open>
  Modelled from the spec: the registry of \<^verbatim>\<open>Phaser.Events.EventEmitter\<close>, which is
  missing from src/. The callbacks (each with its context) registered for an event
  type, in registration order.
\<close>

definition subscribers :: "string \<Rightarrow> world \<Rightarrow> (nat \<times> nat) list" where
  "subscribers ev w = map snd (filter (\<lambda>l. fst l = ev) (listeners w))"

text \<open>
  Modelled from the spec: \<^verbatim>\<open>on(type, callback, context)\<close> of
  \<^verbatim>\<open>Phaser.Events.EventEmitter\<close>, which is missing from src/. It registers the
  callback for the type, after those registered before; registering a callback
  again adds a further registration.
\<close>

definition on_ev :: "string \<Rightarrow> nat \<Rightarrow> nat \<Rightarrow> world \<Rightarrow> world" where
  "on_ev ev f c w = w\<lparr>listeners := listeners w @ [(ev, f, c)]\<rparr>"

text \<open>
  Modelled from the spec: \<^verbatim>\<open>emit(type, payload)\<close> of \<^verbatim>\<open>Phaser.Events.EventEmitter\<close>,
  which is missing from src/. It invokes every currently registered callback for
  that type, in registration order, synchronously; an exception of a subscriber
  does not leave \<^verbatim>\<open>emit\<close>, so \<^verbatim>\<open>emit\<close> always returns.
\<close>

definition emit :: "string \<Rightarrow> arg \<Rightarrow> world \<Rightarrow> world" where
  "emit ev a w =
     w\<lparr>emitted := emitted w @
        [\<lparr> e_name = ev, e_arg = a, e_delivered = subscribers ev w,
           e_ws = ws w, e_connected = isConnected w \<rparr>]\<rparr>"

subsection \<open>Reading a parsed frame\<close>

text \<open>
  \<^verbatim>\<open>message.type\<close> and \<^verbatim>\<open>message.payload\<close> (line 87). Reading a property of
  \<^verbatim>\<open>null\<close> throws a TypeError (\<open>None\<close>); an object gives the value of the property
  or \<^verbatim>\<open>undefined\<close>; a string, number, boolean or array has neither property. The
  list of a \<open>JObj\<close> holds every property once.
\<close>

fun get_prop :: "jsval \<Rightarrow> string \<Rightarrow> jsval option" where
  "get_prop JNull k = None"
| "get_prop JUndefined k = None"
| "get_prop (JObj kvs) k = Some (case map_of kvs k of None \<Rightarrow> JUndefined | Some v \<Rightarrow> v)"
| "get_prop v k = Some JUndefined"

text \<open>
  The event name that \<^verbatim>\<open>emit\<close> is given at line 87 is whatever \<^verbatim>\<open>message.type\<close>
  is; a value that is not a string is used as a property key, that is, through
  JavaScript's ToString.
\<close>

fun js_toString :: "jsval \<Rightarrow> string" and js_join :: "jsval list \<Rightarrow> string" where
  "js_toString JUndefined = ''undefined''"
| "js_toString JNull = ''null''"
| "js_toString (JBool b) = (if b then ''true'' else ''false'')"
| "js_toString (JNum n) = n"
| "js_toString (JStr s) = s"
| "js_toString (JArr xs) = js_join xs"
| "js_toString (JObj kvs) = ''[object Object]''"
| "js_join [] = []"
| "js_join (x # xs) =
     (if x = JNull \<or> x = JUndefined then [] else js_toString x) @
     (if xs = [] then [] else '','' @ js_join xs)"

subsection \<open>The backoff delay\<close>

text \<open>
  \<^verbatim>\<open>Math.pow(1.5, k)\<close> for an integer \<open>k\<close>, and line 135:
  \<^verbatim>\<open>Math.min(this.reconnectDelay * Math.pow(1.5, this.reconnectAttempts - 1), 30000)\<close>.
  The source computes in binary64. For the attempts 1 to 5 that line 123 lets
  through the values are 3000, 4500, 6750, 10125 and 15187.5, and for the sixth
  22781.25, all of them binary fractions far below 53 bits, so the exact
  arithmetic of \<open>rat\<close> computes what the source does; from the seventh attempt on
  the product exceeds the ceiling (or is infinite) and the value is 30000 in both.
  A negative exponent arises only for 0 attempts, which line 133 excludes.
\<close>

definition Math_pow_1_5 :: "int \<Rightarrow> rat" where
  "Math_pow_1_5 k = (if 0 \<le> k then (3 / 2) ^ nat k else (2 / 3) ^ nat (- k))"

definition backoff_delay :: "nat \<Rightarrow> rat" where
  "backoff_delay attempts = min (reconnectDelay * Math_pow_1_5 (int attempts - 1)) 30000"

subsection \<open>scheduleReconnect (lines 122 to 142)\<close>

definition scheduleReconnect :: "world \<Rightarrow> world" where
  "scheduleReconnect w =
     (if reconnectAttempts w \<ge> maxReconnectAttempts then
        console_say Error ''[WS] Max reconnect attempts reached. Giving up.'' w
      else if truthy (reconnectTimeoutId w) then w
      else
        let w1 = w\<lparr>reconnectAttempts := Suc (reconnectAttempts w)\<rparr>;
            delay = backoff_delay (reconnectAttempts w1);
            w2 = console_say Log ''[WS] Scheduling reconnect attempt'' w1;
            (t, w3) = setTimeout delay w2
        in w3\<lparr>reconnectTimeoutId := Some t\<rparr>)"

subsection \<open>connect (lines 31 to 64)\<close>

text \<open>Lines 33 to 36, and again 185 to 188.\<close>

definition cancel_reconnect_timeout :: "world \<Rightarrow> world" where
  "cancel_reconnect_timeout w =
     (case reconnectTimeoutId w of
        None \<Rightarrow> w
      | Some t \<Rightarrow>
          if truthy (Some t) then (clearTimeout t w)\<lparr>reconnectTimeoutId := None\<rparr> else w)"

text \<open>The test of line 38.\<close>

definition connected_or_connecting :: "world \<Rightarrow> bool" where
  "connected_or_connecting w =
     (case ws w of
        None \<Rightarrow> False
      | Some s \<Rightarrow> readyStateOf w s = OPEN \<or> readyStateOf w s = CONNECTING)"

text \<open>\<^verbatim>\<open>new WebSocket(WEBSOCKET_URL)\<close> when it does not throw: a fresh connecting socket.\<close>

definition new_WebSocket :: "world \<Rightarrow> nat \<times> world" where
  "new_WebSocket w =
     (socketsCreated w,
      w\<lparr>readyStateOf := (readyStateOf w)(socketsCreated w := CONNECTING),
        socketsCreated := Suc (socketsCreated w)\<rparr>)"

text \<open>
  \<^verbatim>\<open>setupEventListeners\<close> (lines 66 to 120) assigns the four handlers to the socket
  the service holds. The handlers themselves are \<open>onopen\<close>, \<open>onmessage\<close>,
  \<open>onerror\<close> and \<open>onclose\<close> below; they read and write the fields of the service,
  never the socket whose event runs them.
\<close>

definition setupEventListeners :: "world \<Rightarrow> world" where
  "setupEventListeners w =
     (case ws w of None \<Rightarrow> w | Some s \<Rightarrow> w\<lparr>listening := insert s (listening w)\<rparr>)"

text \<open>
  \<open>connect\<close> returns the promise and the new state. In the last two branches the
  promise returned at line 63 is the one assigned at line 46.
\<close>

definition connect :: "world \<Rightarrow> nat \<times> world" where
  "connect w0 =
     (let w1 = cancel_reconnect_timeout w0 in
      if connected_or_connecting w1 then
        let w2 = console_say Log ''[WS] Already connected or connecting.'' w1 in
        (case connectionPromise w2 of
           Some p \<Rightarrow> (p, w2)
         | None \<Rightarrow> Promise_resolve w2)
      else
        let w2 = console_say Log ''[WS] Attempting to connect...'' w1;
            (p, w3) = new_Promise w2;
            w4 = w3\<lparr>connectionPromise := Some p,
                    resolveConnectionPromise := Some p,
                    rejectConnectionPromise := Some p\<rparr>
        in
        if ctorThrows w4 then
          let w5 = console_say Error ''[WS] Connection failed immediately:'' w4;
              w6 = emit ''disconnected'' NoArg w5;
              w7 = (case rejectConnectionPromise w6 of
                      None \<Rightarrow> w6
                    | Some q \<Rightarrow> reject q ConstructorError w6)
          in (p, scheduleReconnect w7)
        else
          let (s, w5) = new_WebSocket w4
          in (p, setupEventListeners (w5\<lparr>ws := Some s\<rparr>)))"

subsection \<open>The four handlers (lines 69 to 119)\<close>

definition onopen :: "world \<Rightarrow> world" where
  "onopen w =
     (let w1 = console_say Log ''[WS] Connection established.'' w;
          w2 = w1\<lparr>reconnectAttempts := 0\<rparr>;
          w3 = emit ''connected'' NoArg w2;
          w4 = (case resolveConnectionPromise w3 of
                  None \<Rightarrow> w3
                | Some p \<Rightarrow> resolve p w3)
      in w4\<lparr>resolveConnectionPromise := None, rejectConnectionPromise := None\<rparr>)"

definition onmessage :: "platform \<Rightarrow> string \<Rightarrow> world \<Rightarrow> world" where
  "onmessage P data w =
     (case JSON_parse P data of
        None \<Rightarrow> console_say Error ''[WS] Failed to parse message:'' w
      | Some message \<Rightarrow>
          let w1 = console_say Log ''[WS] Message received:'' w;
              w2 = emit ''message'' (OneArg message) w1
          in (case get_prop message ''type'' of
                None \<Rightarrow> console_say Error ''[WS] Failed to parse message:'' w2
              | Some t \<Rightarrow>
                  (case get_prop message ''payload'' of
                     None \<Rightarrow> console_say Error ''[WS] Failed to parse message:'' w2
                   | Some pl \<Rightarrow> emit (js_toString t) (OneArg pl) w2)))"

definition onerror :: "world \<Rightarrow> world" where
  "onerror w =
     (let w1 = console_say Error ''[WS] Error:'' w;
          w2 = emit ''error'' TransportEvent w1
      in (case rejectConnectionPromise w2 of
            None \<Rightarrow> w2
          | Some p \<Rightarrow>
              (reject p ErrorDuringAttempt w2)
                \<lparr>resolveConnectionPromise := None, rejectConnectionPromise := None\<rparr>))"

definition onclose :: "int \<Rightarrow> world \<Rightarrow> world" where
  "onclose code w =
     (let w1 = console_say Warn ''[WS] Connection closed.'' w;
          w2 = w1\<lparr>ws := None\<rparr>;
          w3 = emit ''disconnected'' NoArg w2;
          w4 = (case rejectConnectionPromise w3 of
                  None \<Rightarrow> w3
                | Some p \<Rightarrow>
                    (reject p (ClosedWithCode code) w3)
                      \<lparr>resolveConnectionPromise := None, rejectConnectionPromise := None\<rparr>)
      in if code \<noteq> 1000 then scheduleReconnect w4 else w4)"

subsection \<open>disconnect (lines 183 to 197)\<close>

datatype completion = Returns | Throws

text \<open>
  \<^verbatim>\<open>socket.close(code, reason)\<close>: the browser throws a SyntaxError when the reason
  is longer than 123 bytes (\<open>None\<close>); otherwise a socket that is connecting or open
  starts closing.
\<close>

definition ws_close :: "nat \<Rightarrow> int \<Rightarrow> string \<Rightarrow> world \<Rightarrow> world option" where
  "ws_close s code reason w =
     (if 123 < length reason then None
      else Some (w\<lparr>closeCalls := closeCalls w @ [(s, code, reason)],
                   readyStateOf := (readyStateOf w)
                     (s := (if readyStateOf w s = CONNECTING \<or> readyStateOf w s = OPEN
                            then CLOSING else readyStateOf w s))\<rparr>))"

definition disconnect :: "string \<Rightarrow> world \<Rightarrow> completion \<times> world" where
  "disconnect reason w0 =
     (let w1 = cancel_reconnect_timeout w0;
          w2 = w1\<lparr>reconnectAttempts := maxReconnectAttempts\<rparr>
      in (case ws w2 of
            None \<Rightarrow> (Returns, emit ''disconnected'' NoArg w2)
          | Some s \<Rightarrow>
              let w3 = console_say Log ''[WS] Manually disconnecting...'' w2 in
              (case ws_close s 1000 reason w3 of
                 None \<Rightarrow> (Throws, w3)
               | Some w4 \<Rightarrow> (Returns, emit ''disconnected'' NoArg (w4\<lparr>ws := None\<rparr>)))))"

subsection \<open>sendCommand (lines 148 to 181)\<close>

text \<open>
  \<^verbatim>\<open>this.ws?.send(text)\<close>: the browser throws when the socket is still connecting
  (\<open>None\<close>), transmits when it is open, and drops the text otherwise.
\<close>

definition ws_send :: "string \<Rightarrow> world \<Rightarrow> world option" where
  "ws_send text w =
     (case ws w of
        None \<Rightarrow> Some w
      | Some s \<Rightarrow>
          (case readyStateOf w s of
             CONNECTING \<Rightarrow> None
           | OPEN \<Rightarrow> Some (w\<lparr>transmitted := transmitted w @ [(s, text)]\<rparr>)
           | CLOSING \<Rightarrow> Some w
           | CLOSED \<Rightarrow> Some w))"

definition error_message :: "string \<Rightarrow> arg" where
  "error_message m = OneArg (JObj [(''message'', JStr m)])"

text \<open>The catch block of lines 173 to 176.\<close>

definition send_failed :: "world \<Rightarrow> world" where
  "send_failed w =
     emit ''error'' (error_message ''Failed to send command via WebSocket.'')
       (console_say Error ''[WS] Failed to send message:'' w)"

text \<open>Lines 167 to 180.\<close>

definition send_if_connected :: "platform \<Rightarrow> string \<Rightarrow> jsval \<Rightarrow> world \<Rightarrow> world" where
  "send_if_connected P command payload w =
     (if isConnected w then
        let message = JObj [(''command'', JStr command), (''payload'', payload)];
            w1 = console_say Log ''[WS] Sending command:'' w
        in (case JSON_stringify P message of
              None \<Rightarrow> send_failed w1
            | Some text \<Rightarrow>
                (case ws_send text w1 of
                   None \<Rightarrow> send_failed w1
                 | Some w2 \<Rightarrow> w2))
      else
        emit ''error'' (error_message ''Cannot send command, WebSocket is not connected.'')
          (console_say Error ''[WS] Cannot send command, WebSocket is not connected after wait.'' w))"

text \<open>The condition of line 152.\<close>

definition should_trigger_connect :: "world \<Rightarrow> bool" where
  "should_trigger_connect w =
     (connectionPromise w = None \<or>
      (case ws w of None \<Rightarrow> False | Some s \<Rightarrow> readyStateOf w s = CLOSED))"

text \<open>
  \<open>sendCommand\<close> is an \<^verbatim>\<open>async\<close> function. The call runs to the \<^verbatim>\<open>await\<close> of line
  158, where it is suspended with the promise it awaits, or, when the service is
  connected, to the end.
\<close>

definition sendCommand :: "platform \<Rightarrow> string \<Rightarrow> jsval \<Rightarrow> world \<Rightarrow> world" where
  "sendCommand P command payload w0 =
     (if \<not> isConnected w0 then
        let w1 = console_say Log ''[WS] Connection not established. Waiting...'' w0;
            w2 = (if should_trigger_connect w1
                  then snd (connect (console_say Log
                         ''[WS] Triggering connection attempt before sending...'' w1))
                  else w1)
        in w2\<lparr>suspended := suspended w2 @ [(connectionPromise w2, command, payload)]\<rparr>
      else send_if_connected P command payload w0)"

text \<open>The awaited promise has been rejected (the catch block of lines 160 to 164).\<close>

definition gate_rejected :: "nat option \<Rightarrow> world \<Rightarrow> bool" where
  "gate_rejected g w =
     (case g of
        None \<Rightarrow> False
      | Some p \<Rightarrow> (case promiseOf w p of Rejected r \<Rightarrow> True | _ \<Rightarrow> False))"

text \<open>The rest of a suspended call, run once the awaited promise is settled.\<close>

definition sendCommand_resume ::
  "platform \<Rightarrow> nat option \<times> string \<times> jsval \<Rightarrow> world \<Rightarrow> world" where
  "sendCommand_resume P k w =
     (case k of (g, command, payload) \<Rightarrow>
        if gate_rejected g w then
          emit ''error'' (error_message ''Failed to connect to server to send command.'')
            (console_say Error ''[WS] Failed to connect before sending command:'' w)
        else
          send_if_connected P command payload
            (console_say Log ''[WS] Connection ready. Proceeding to send command.'' w))"

subsection \<open>The event loop\<close>

text \<open>
  An \<^verbatim>\<open>await\<close> continues once its promise is settled; awaiting what is not a promise
  continues at once. After every task the suspended calls that can continue do so,
  in the order in which they were suspended.
\<close>

definition can_continue :: "world \<Rightarrow> nat option \<times> string \<times> jsval \<Rightarrow> bool" where
  "can_continue w k = (case fst k of None \<Rightarrow> True | Some p \<Rightarrow> promiseOf w p \<noteq> Pending)"

definition run_microtasks :: "platform \<Rightarrow> world \<Rightarrow> world" where
  "run_microtasks P w =
     foldl (\<lambda>v k. sendCommand_resume P k v)
       (w\<lparr>suspended := filter (\<lambda>k. \<not> can_continue w k) (suspended w)\<rparr>)
       (filter (can_continue w) (suspended w))"

text \<open>Lines 138 to 141.\<close>

definition timeout_callback :: "world \<Rightarrow> world" where
  "timeout_callback w = snd (connect (w\<lparr>reconnectTimeoutId := None\<rparr>))"

text \<open>
  The tasks: the calls of the application, and what the browser does to a socket or
  a timeout. A socket that fails fires \<^verbatim>\<open>error\<close> and then \<^verbatim>\<open>close\<close> in one task.
\<close>

datatype event =
    CallConnect
  | CallDisconnect string
  | CallSendCommand string jsval
  | CallOn string nat nat
  | SocketOpen nat
  | SocketMessage nat string
  | SocketClosing nat
  | SocketFail nat int
  | SocketClose nat int
  | TimerFire nat

definition set_readyState :: "nat \<Rightarrow> readyState \<Rightarrow> world \<Rightarrow> world" where
  "set_readyState s r w = w\<lparr>readyStateOf := (readyStateOf w)(s := r)\<rparr>"

fun handle :: "platform \<Rightarrow> event \<Rightarrow> world \<Rightarrow> world" where
  "handle P CallConnect w = snd (connect w)"
| "handle P (CallDisconnect reason) w = snd (disconnect reason w)"
| "handle P (CallSendCommand command payload) w = sendCommand P command payload w"
| "handle P (CallOn ev f c) w = on_ev ev f c w"
| "handle P (SocketOpen s) w =
     (if s < socketsCreated w \<and> readyStateOf w s = CONNECTING then
        (if s \<in> listening w then onopen (set_readyState s OPEN w)
         else set_readyState s OPEN w)
      else w)"
| "handle P (SocketMessage s data) w =
     (if s < socketsCreated w \<and> readyStateOf w s = OPEN \<and> s \<in> listening w
      then onmessage P data w else w)"
| "handle P (SocketClosing s) w =
     (if s < socketsCreated w \<and> readyStateOf w s = OPEN
      then set_readyState s CLOSING w else w)"
| "handle P (SocketFail s code) w =
     (if s < socketsCreated w \<and> readyStateOf w s \<noteq> CLOSED then
        (if s \<in> listening w then onclose code (onerror (set_readyState s CLOSED w))
         else set_readyState s CLOSED w)
      else w)"
| "handle P (SocketClose s code) w =
     (if s < socketsCreated w \<and> readyStateOf w s \<noteq> CLOSED then
        (if s \<in> listening w then onclose code (set_readyState s CLOSED w)
         else set_readyState s CLOSED w)
      else w)"
| "handle P (TimerFire t) w =
     (if t \<in> fst ` set (timers w)
      then timeout_callback (clearTimeout t w) else w)"

definition step :: "platform \<Rightarrow> event \<Rightarrow> world \<Rightarrow> world" where
  "step P e w = run_microtasks P (handle P e w)"

definition run :: "platform \<Rightarrow> event list \<Rightarrow> world \<Rightarrow> world" where
  "run P evs w = foldl (\<lambda>v e. step P e v) w evs"

subsection \<open>A platform and frames for the examples\<close>

text \<open>
  A stand-in for the platform, used where a property is evaluated on an example: it
  parses three frame texts and nothing else, and renders a command by its name.
\<close>

definition description_frame :: jsval where
  "description_frame =
     JObj [(''type'', JStr ''description''),
           (''payload'', JObj [(''description'', JStr ''A dark room.'')])]"

definition message_frame :: jsval where
  "message_frame = JObj [(''type'', JStr ''message''), (''payload'', JNull)]"

definition sample_platform :: platform where
  "sample_platform =
     \<lparr> JSON_parse = (\<lambda>d. if d = ''description frame'' then Some description_frame
                         else if d = ''message frame'' then Some message_frame
                         else if d = ''null'' then Some JNull
                         else None),
       JSON_stringify = (\<lambda>v. case v of
                           JObj ((k, JStr c) # r) \<Rightarrow> Some c
                         | _ \<Rightarrow> None) \<rparr>"

subsection \<open>Invariants of the event loop\<close>

text \<open>
  The identifier of a timeout is never 0. While the service holds a socket, that
  socket has the handlers, no reconnect timeout is pending, and the readiness gate
  fits the socket: for an open socket the current promise is fulfilled, for a
  connecting one it is fulfilled or still pending with its resolver held.
\<close>

definition gate_inv :: "world \<Rightarrow> bool" where
  "gate_inv w =
     (reconnectTimeoutId w \<noteq> Some 0 \<and>
      (ctorThrows w \<longrightarrow> ws w = None) \<and>
      (case ws w of
         None \<Rightarrow> True
       | Some s \<Rightarrow>
           s \<in> listening w \<and> s < socketsCreated w \<and> reconnectTimeoutId w = None \<and>
           (case connectionPromise w of
              None \<Rightarrow> readyStateOf w s \<noteq> CONNECTING \<and> readyStateOf w s \<noteq> OPEN
            | Some p \<Rightarrow>
                (readyStateOf w s = CONNECTING \<longrightarrow>
                   promiseOf w p = Fulfilled \<or>
                   (promiseOf w p = Pending \<and> resolveConnectionPromise w = Some p)) \<and>
                (readyStateOf w s = OPEN \<longrightarrow> promiseOf w p = Fulfilled))))"

text \<open>The pending reconnect timeout, if any, is the only timeout.\<close>

definition timer_inv :: "world \<Rightarrow> bool" where
  "timer_inv w =
     (case reconnectTimeoutId w of
        None \<Rightarrow> timers w = []
      | Some t \<Rightarrow> t \<noteq> 0 \<and> t \<le> timersCreated w \<and> map fst (timers w) = [t])"

text \<open>
  Socket \<open>s\<close> exists and, for as long as the service holds it, the current promise
  is \<open>p\<close>.
\<close>

definition attempt_inv :: "nat \<Rightarrow> nat \<Rightarrow> world \<Rightarrow> bool" where
  "attempt_inv s p w =
     (\<not> ctorThrows w \<and> s < socketsCreated w \<and>
      (ws w = Some s \<longrightarrow> connectionPromise w = Some p))"

subsection \<open>Traces for the examples\<close>

text \<open>
  The server is down: the first attempt and the five automatic retries that follow
  it are started; the sixth socket is still connecting.
\<close>

definition server_down :: "event list" where
  "server_down =
     [CallConnect, SocketFail 0 1006, TimerFire 1, SocketFail 1 1006, TimerFire 2,
      SocketFail 2 1006, TimerFire 3, SocketFail 3 1006, TimerFire 4, SocketFail 4 1006,
      TimerFire 5]"

text \<open>
  The application disconnects and connects again at once; the close of the first
  socket arrives while the second is still connecting.
\<close>

definition quick_reconnect :: "event list" where
  "quick_reconnect =
     [CallConnect, SocketOpen 0, CallDisconnect ''bye'', CallConnect, SocketClose 0 1000]"

text \<open>The task is the opening of a socket.\<close>

fun opens :: "event \<Rightarrow> bool" where
  "opens (SocketOpen s) = True"
| "opens e = False"

text \<open>
  Automatic reconnection is off: the counter is at its maximum and no timeout is
  outstanding.
\<close>

definition quiet :: "world \<Rightarrow> bool" where
  "quiet w =
     (maxReconnectAttempts \<le> reconnectAttempts w \<and> timers w = [] \<and>
      reconnectTimeoutId w = None)"

text \<open>The callbacks invoked between two states, in the order of invocation.\<close>

definition invoked_since :: "world \<Rightarrow> world \<Rightarrow> (nat \<times> nat) list" where
  "invoked_since w w' = concat (map e_delivered (drop (length (emitted w)) (emitted w')))"

text \<open>The command the game scene sends (\<^verbatim>\<open>GameScene.ts\<close>, line 329).\<close>

definition look_command :: event where
  "look_command = CallSendCommand ''PROCESS_INPUT'' (JObj [(''inputText'', JStr ''look'')])"

text \<open>Every socket that was created has the handlers.\<close>

definition wired_inv :: "world \<Rightarrow> bool" where
  "wired_inv w = (listening w = {s. s < socketsCreated w})"

section \<open>Properties\<close>

subsection \<open>The backoff delay\<close>

lemma Math_pow_1_5_nat: "Math_pow_1_5 (int n) = (3 / 2) ^ n"
  by (simp add: Math_pow_1_5_def)

lemma backoff_delay_eq:
  assumes "1 \<le> n"
  shows "backoff_delay n = min (3000 * (3 / 2) ^ (n - 1)) 30000"
proof -
  from assms have "int n - 1 = int (n - 1)" by simp
  then show ?thesis
    by (simp only: backoff_delay_def reconnectDelay_def Math_pow_1_5_nat)
qed

lemma backoff_delay_mono:
  assumes "1 \<le> m" "m \<le> n"
  shows "backoff_delay m \<le> backoff_delay n"
proof -
  have "((3::rat) / 2) ^ (m - 1) \<le> (3 / 2) ^ (n - 1)"
    using assms by (intro power_increasing) auto
  then have "(3000::rat) * (3 / 2) ^ (m - 1) \<le> 3000 * (3 / 2) ^ (n - 1)"
    by simp
  then show ?thesis
    using assms by (simp add: backoff_delay_eq min_le_iff_disj)
qed

lemma scheduleReconnect_timers:
  assumes "reconnectAttempts w < maxReconnectAttempts" "\<not> truthy (reconnectTimeoutId w)"
  shows "timers (scheduleReconnect w) =
           timers w @ [(Suc (timersCreated w), backoff_delay (Suc (reconnectAttempts w)))]"
  using assms by (simp add: scheduleReconnect_def Let_def setTimeout_def console_say_def)

text \<open>
  C6. For every attempt count \<open>n \<ge> 1\<close> the reconnect delay is
  \<open>min (3000 * 1.5 ^ (n - 1)) 30000\<close> milliseconds; it is bounded by 30000 and
  does not decrease as \<open>n\<close> grows; and it is the delay of the timeout that
  \<open>scheduleReconnect\<close> sets for attempt \<open>n\<close>. Being a function of \<open>n\<close>, it is
  deterministic.
\<close>

theorem backoff_delay_formula:
  assumes "1 \<le> n"
  shows "backoff_delay n = min (3000 * (3 / 2) ^ (n - 1)) 30000
       \<and> backoff_delay n \<le> 30000
       \<and> (\<forall>m. 1 \<le> m \<and> m \<le> n \<longrightarrow> backoff_delay m \<le> backoff_delay n)
       \<and> (\<forall>w. reconnectAttempts w = n - 1 \<and> n \<le> maxReconnectAttempts
                \<and> \<not> truthy (reconnectTimeoutId w) \<longrightarrow>
              timers (scheduleReconnect w) = timers w @ [(Suc (timersCreated w), backoff_delay n)])"
proof (intro conjI allI impI)
  show "backoff_delay n = min (3000 * (3 / 2) ^ (n - 1)) 30000"
    using assms by (rule backoff_delay_eq)
  show "backoff_delay n \<le> 30000"
    by (simp add: backoff_delay_def)
next
  fix m assume "1 \<le> m \<and> m \<le> n"
  then show "backoff_delay m \<le> backoff_delay n"
    by (simp add: backoff_delay_mono)
next
  fix w :: world
  assume h: "reconnectAttempts w = n - 1 \<and> n \<le> maxReconnectAttempts \<and> \<not> truthy (reconnectTimeoutId w)"
  with assms have "reconnectAttempts w < maxReconnectAttempts" "Suc (reconnectAttempts w) = n"
    by auto
  with h show "timers (scheduleReconnect w) = timers w @ [(Suc (timersCreated w), backoff_delay n)]"
    using scheduleReconnect_timers [of w] by simp
qed

theorem backoff_delay_formula_witness:
  "(1::nat) \<le> 3 \<and> backoff_delay 3 = 6750 \<and> backoff_delay 2 \<le> backoff_delay 3
   \<and> timers (scheduleReconnect ((initial_world False)\<lparr>reconnectAttempts := 2\<rparr>)) = [(1, 6750)]"
proof -
  have h: "(1::nat) \<le> 3" by simp
  note t = backoff_delay_formula [OF h]
  from t have "backoff_delay 3 = min (3000 * (3 / 2) ^ (3 - 1)) 30000" by blast
  then have a: "backoff_delay 3 = 6750" by (simp add: power2_eq_square)
  from t have "1 \<le> (2::nat) \<and> (2::nat) \<le> 3 \<longrightarrow> backoff_delay 2 \<le> backoff_delay 3" by blast
  then have b: "backoff_delay 2 \<le> backoff_delay 3" by simp
  from t have "reconnectAttempts ((initial_world False)\<lparr>reconnectAttempts := 2\<rparr>) = 3 - 1 \<and> 3 \<le> maxReconnectAttempts
                \<and> \<not> truthy (reconnectTimeoutId ((initial_world False)\<lparr>reconnectAttempts := 2\<rparr>)) \<longrightarrow>
              timers (scheduleReconnect ((initial_world False)\<lparr>reconnectAttempts := 2\<rparr>)) = timers ((initial_world False)\<lparr>reconnectAttempts := 2\<rparr>) @ [(Suc (timersCreated ((initial_world False)\<lparr>reconnectAttempts := 2\<rparr>)), backoff_delay 3)]"
    by blast
  then have c: "timers (scheduleReconnect ((initial_world False)\<lparr>reconnectAttempts := 2\<rparr>)) = [(1, 6750)]"
    using a by (simp add: initial_world_def maxReconnectAttempts_def truthy_def)
  from h a b c show ?thesis by blast
qed

subsection \<open>Frames that do not parse\<close>

text \<open>
  C8. A frame whose text \<^verbatim>\<open>JSON.parse\<close> rejects is dropped: the handler adds one
  error line to the console and changes nothing else, so nothing is emitted, no
  callback is invoked, and the socket handle, the Reconnect Counter, the readiness
  gate and the timeouts are as before.
\<close>

theorem unparsable_frame_dropped:
  assumes "JSON_parse P d = None"
  shows "onmessage P d w = w\<lparr>console := console w @ [(Error, ''[WS] Failed to parse message:'')]\<rparr>
       \<and> emitted (onmessage P d w) = emitted w
       \<and> ws (onmessage P d w) = ws w
       \<and> reconnectAttempts (onmessage P d w) = reconnectAttempts w
       \<and> connectionPromise (onmessage P d w) = connectionPromise w
       \<and> promiseOf (onmessage P d w) = promiseOf w
       \<and> timers (onmessage P d w) = timers w"
  using assms by (simp add: onmessage_def console_say_def)

theorem unparsable_frame_dropped_witness:
  "JSON_parse sample_platform ''not json'' = None
   \<and> onmessage sample_platform ''not json'' (initial_world False) =
       (initial_world False)\<lparr>console := [(Error, ''[WS] Failed to parse message:'')]\<rparr>
   \<and> emitted (onmessage sample_platform ''not json'' (initial_world False)) = []"
proof -
  have h: "JSON_parse sample_platform ''not json'' = None"
    by (simp add: sample_platform_def)
  from unparsable_frame_dropped [OF h, of "initial_world False"] h show ?thesis
    by (simp add: initial_world_def)
qed

subsection \<open>The handle is cleared before \<open>disconnected\<close> is emitted\<close>

lemma scheduleReconnect_emitted [simp]: "emitted (scheduleReconnect w) = emitted w"
  by (simp add: scheduleReconnect_def Let_def setTimeout_def console_say_def)

lemma cancel_reconnect_timeout_fields [simp]:
  "emitted (cancel_reconnect_timeout w) = emitted w"
  "ws (cancel_reconnect_timeout w) = ws w"
  "listeners (cancel_reconnect_timeout w) = listeners w"
  by (simp_all add: cancel_reconnect_timeout_def clearTimeout_def split: option.splits)

text \<open>
  C10. The close handler and \<open>disconnect\<close> each emit \<open>disconnected\<close> once, and
  at that emit the handle is already \<^verbatim>\<open>null\<close>: what a subscriber sees is no socket
  and \<^verbatim>\<open>isConnected()\<close> false. (A \<open>disconnect\<close> that the browser's \<^verbatim>\<open>close\<close>
  aborts emits nothing.)
\<close>

theorem disconnected_seen_with_cleared_handle:
  "emitted (onclose code w) =
     emitted w @
       [\<lparr> e_name = ''disconnected'', e_arg = NoArg,
           e_delivered = subscribers ''disconnected'' w,
           e_ws = None, e_connected = False \<rparr>]
   \<and> emitted (snd (disconnect r w)) =
       emitted w @
         (if fst (disconnect r w) = Returns
          then [\<lparr> e_name = ''disconnected'', e_arg = NoArg,
                   e_delivered = subscribers ''disconnected'' w,
                   e_ws = None, e_connected = False \<rparr>]
          else [])"
proof (intro conjI)
  show "emitted (onclose code w) =
     emitted w @
       [\<lparr> e_name = ''disconnected'', e_arg = NoArg,
           e_delivered = subscribers ''disconnected'' w,
           e_ws = None, e_connected = False \<rparr>]"
    by (simp add: onclose_def Let_def emit_def console_say_def reject_def
        subscribers_def isConnected_def split: option.splits)
  show "emitted (snd (disconnect r w)) =
       emitted w @
         (if fst (disconnect r w) = Returns
          then [\<lparr> e_name = ''disconnected'', e_arg = NoArg,
                   e_delivered = subscribers ''disconnected'' w,
                   e_ws = None, e_connected = False \<rparr>]
          else [])"
    by (simp add: disconnect_def Let_def emit_def console_say_def ws_close_def
        subscribers_def isConnected_def split: option.splits)
qed

subsection \<open>What each operation leaves unchanged\<close>

lemmas browser_defs = console_say_def
  new_Promise_def
  Promise_resolve_def
  resolve_def
  reject_def
  setTimeout_def
  clearTimeout_def
  new_WebSocket_def
  set_readyState_def
  emit_def
  on_ev_def

lemma console_say_same [simp]:
  "ws (console_say l m w) = ws w"
  "connectionPromise (console_say l m w) = connectionPromise w"
  "resolveConnectionPromise (console_say l m w) = resolveConnectionPromise w"
  "rejectConnectionPromise (console_say l m w) = rejectConnectionPromise w"
  "reconnectAttempts (console_say l m w) = reconnectAttempts w"
  "reconnectTimeoutId (console_say l m w) = reconnectTimeoutId w"
  "listeners (console_say l m w) = listeners w"
  "readyStateOf (console_say l m w) = readyStateOf w"
  "socketsCreated (console_say l m w) = socketsCreated w"
  "listening (console_say l m w) = listening w"
  "closeCalls (console_say l m w) = closeCalls w"
  "promiseOf (console_say l m w) = promiseOf w"
  "promisesCreated (console_say l m w) = promisesCreated w"
  "timers (console_say l m w) = timers w"
  "timersCreated (console_say l m w) = timersCreated w"
  "ctorThrows (console_say l m w) = ctorThrows w"
  "suspended (console_say l m w) = suspended w"
  "emitted (console_say l m w) = emitted w"
  "transmitted (console_say l m w) = transmitted w"
  "console (console_say l m w) = console w @ [(l, m)]"
  by (simp_all add: console_say_def)

lemma emit_same [simp]:
  "ws (emit ev a w) = ws w"
  "connectionPromise (emit ev a w) = connectionPromise w"
  "resolveConnectionPromise (emit ev a w) = resolveConnectionPromise w"
  "rejectConnectionPromise (emit ev a w) = rejectConnectionPromise w"
  "reconnectAttempts (emit ev a w) = reconnectAttempts w"
  "reconnectTimeoutId (emit ev a w) = reconnectTimeoutId w"
  "listeners (emit ev a w) = listeners w"
  "readyStateOf (emit ev a w) = readyStateOf w"
  "socketsCreated (emit ev a w) = socketsCreated w"
  "listening (emit ev a w) = listening w"
  "closeCalls (emit ev a w) = closeCalls w"
  "promiseOf (emit ev a w) = promiseOf w"
  "promisesCreated (emit ev a w) = promisesCreated w"
  "timers (emit ev a w) = timers w"
  "timersCreated (emit ev a w) = timersCreated w"
  "ctorThrows (emit ev a w) = ctorThrows w"
  "suspended (emit ev a w) = suspended w"
  "transmitted (emit ev a w) = transmitted w"
  "console (emit ev a w) = console w"
  by (simp_all add: emit_def)

lemma resolve_same [simp]:
  "ws (resolve p w) = ws w"
  "connectionPromise (resolve p w) = connectionPromise w"
  "resolveConnectionPromise (resolve p w) = resolveConnectionPromise w"
  "rejectConnectionPromise (resolve p w) = rejectConnectionPromise w"
  "reconnectAttempts (resolve p w) = reconnectAttempts w"
  "reconnectTimeoutId (resolve p w) = reconnectTimeoutId w"
  "listeners (resolve p w) = listeners w"
  "readyStateOf (resolve p w) = readyStateOf w"
  "socketsCreated (resolve p w) = socketsCreated w"
  "listening (resolve p w) = listening w"
  "closeCalls (resolve p w) = closeCalls w"
  "promisesCreated (resolve p w) = promisesCreated w"
  "timers (resolve p w) = timers w"
  "timersCreated (resolve p w) = timersCreated w"
  "ctorThrows (resolve p w) = ctorThrows w"
  "suspended (resolve p w) = suspended w"
  "emitted (resolve p w) = emitted w"
  "transmitted (resolve p w) = transmitted w"
  "console (resolve p w) = console w"
  "promiseOf (resolve p w) = (if promiseOf w p = Pending then (promiseOf w)(p := Fulfilled) else promiseOf w)"
  by (simp_all add: resolve_def)

lemma reject_same [simp]:
  "ws (reject p r w) = ws w"
  "connectionPromise (reject p r w) = connectionPromise w"
  "resolveConnectionPromise (reject p r w) = resolveConnectionPromise w"
  "rejectConnectionPromise (reject p r w) = rejectConnectionPromise w"
  "reconnectAttempts (reject p r w) = reconnectAttempts w"
  "reconnectTimeoutId (reject p r w) = reconnectTimeoutId w"
  "listeners (reject p r w) = listeners w"
  "readyStateOf (reject p r w) = readyStateOf w"
  "socketsCreated (reject p r w) = socketsCreated w"
  "listening (reject p r w) = listening w"
  "closeCalls (reject p r w) = closeCalls w"
  "promisesCreated (reject p r w) = promisesCreated w"
  "timers (reject p r w) = timers w"
  "timersCreated (reject p r w) = timersCreated w"
  "ctorThrows (reject p r w) = ctorThrows w"
  "suspended (reject p r w) = suspended w"
  "emitted (reject p r w) = emitted w"
  "transmitted (reject p r w) = transmitted w"
  "console (reject p r w) = console w"
  "promiseOf (reject p r w) = (if promiseOf w p = Pending then (promiseOf w)(p := Rejected r) else promiseOf w)"
  by (simp_all add: reject_def)

lemma clearTimeout_same [simp]:
  "ws (clearTimeout t w) = ws w"
  "connectionPromise (clearTimeout t w) = connectionPromise w"
  "resolveConnectionPromise (clearTimeout t w) = resolveConnectionPromise w"
  "rejectConnectionPromise (clearTimeout t w) = rejectConnectionPromise w"
  "reconnectAttempts (clearTimeout t w) = reconnectAttempts w"
  "reconnectTimeoutId (clearTimeout t w) = reconnectTimeoutId w"
  "listeners (clearTimeout t w) = listeners w"
  "readyStateOf (clearTimeout t w) = readyStateOf w"
  "socketsCreated (clearTimeout t w) = socketsCreated w"
  "listening (clearTimeout t w) = listening w"
  "closeCalls (clearTimeout t w) = closeCalls w"
  "promiseOf (clearTimeout t w) = promiseOf w"
  "promisesCreated (clearTimeout t w) = promisesCreated w"
  "timersCreated (clearTimeout t w) = timersCreated w"
  "ctorThrows (clearTimeout t w) = ctorThrows w"
  "suspended (clearTimeout t w) = suspended w"
  "emitted (clearTimeout t w) = emitted w"
  "transmitted (clearTimeout t w) = transmitted w"
  "console (clearTimeout t w) = console w"
  "timers (clearTimeout t w) = filter (\<lambda>e. fst e \<noteq> t) (timers w)"
  by (simp_all add: clearTimeout_def)

lemma set_readyState_same [simp]:
  "ws (set_readyState s r w) = ws w"
  "connectionPromise (set_readyState s r w) = connectionPromise w"
  "resolveConnectionPromise (set_readyState s r w) = resolveConnectionPromise w"
  "rejectConnectionPromise (set_readyState s r w) = rejectConnectionPromise w"
  "reconnectAttempts (set_readyState s r w) = reconnectAttempts w"
  "reconnectTimeoutId (set_readyState s r w) = reconnectTimeoutId w"
  "listeners (set_readyState s r w) = listeners w"
  "socketsCreated (set_readyState s r w) = socketsCreated w"
  "listening (set_readyState s r w) = listening w"
  "closeCalls (set_readyState s r w) = closeCalls w"
  "promiseOf (set_readyState s r w) = promiseOf w"
  "promisesCreated (set_readyState s r w) = promisesCreated w"
  "timers (set_readyState s r w) = timers w"
  "timersCreated (set_readyState s r w) = timersCreated w"
  "ctorThrows (set_readyState s r w) = ctorThrows w"
  "suspended (set_readyState s r w) = suspended w"
  "emitted (set_readyState s r w) = emitted w"
  "transmitted (set_readyState s r w) = transmitted w"
  "console (set_readyState s r w) = console w"
  "readyStateOf (set_readyState s r w) = (readyStateOf w)(s := r)"
  by (simp_all add: set_readyState_def)

lemma on_ev_same [simp]:
  "ws (on_ev ev f c w) = ws w"
  "connectionPromise (on_ev ev f c w) = connectionPromise w"
  "resolveConnectionPromise (on_ev ev f c w) = resolveConnectionPromise w"
  "rejectConnectionPromise (on_ev ev f c w) = rejectConnectionPromise w"
  "reconnectAttempts (on_ev ev f c w) = reconnectAttempts w"
  "reconnectTimeoutId (on_ev ev f c w) = reconnectTimeoutId w"
  "readyStateOf (on_ev ev f c w) = readyStateOf w"
  "socketsCreated (on_ev ev f c w) = socketsCreated w"
  "listening (on_ev ev f c w) = listening w"
  "closeCalls (on_ev ev f c w) = closeCalls w"
  "promiseOf (on_ev ev f c w) = promiseOf w"
  "promisesCreated (on_ev ev f c w) = promisesCreated w"
  "timers (on_ev ev f c w) = timers w"
  "timersCreated (on_ev ev f c w) = timersCreated w"
  "ctorThrows (on_ev ev f c w) = ctorThrows w"
  "suspended (on_ev ev f c w) = suspended w"
  "emitted (on_ev ev f c w) = emitted w"
  "transmitted (on_ev ev f c w) = transmitted w"
  "console (on_ev ev f c w) = console w"
  "listeners (on_ev ev f c w) = listeners w @ [(ev, f, c)]"
  by (simp_all add: on_ev_def)

lemma cancel_reconnect_timeout_same [simp]:
  "ws (cancel_reconnect_timeout w) = ws w"
  "connectionPromise (cancel_reconnect_timeout w) = connectionPromise w"
  "resolveConnectionPromise (cancel_reconnect_timeout w) = resolveConnectionPromise w"
  "rejectConnectionPromise (cancel_reconnect_timeout w) = rejectConnectionPromise w"
  "reconnectAttempts (cancel_reconnect_timeout w) = reconnectAttempts w"
  "listeners (cancel_reconnect_timeout w) = listeners w"
  "readyStateOf (cancel_reconnect_timeout w) = readyStateOf w"
  "socketsCreated (cancel_reconnect_timeout w) = socketsCreated w"
  "listening (cancel_reconnect_timeout w) = listening w"
  "closeCalls (cancel_reconnect_timeout w) = closeCalls w"
  "promiseOf (cancel_reconnect_timeout w) = promiseOf w"
  "promisesCreated (cancel_reconnect_timeout w) = promisesCreated w"
  "timersCreated (cancel_reconnect_timeout w) = timersCreated w"
  "ctorThrows (cancel_reconnect_timeout w) = ctorThrows w"
  "suspended (cancel_reconnect_timeout w) = suspended w"
  "emitted (cancel_reconnect_timeout w) = emitted w"
  "transmitted (cancel_reconnect_timeout w) = transmitted w"
  "console (cancel_reconnect_timeout w) = console w"
  by (simp_all add: cancel_reconnect_timeout_def clearTimeout_def split: option.splits)

lemma scheduleReconnect_same [simp]:
  "ws (scheduleReconnect w) = ws w"
  "connectionPromise (scheduleReconnect w) = connectionPromise w"
  "resolveConnectionPromise (scheduleReconnect w) = resolveConnectionPromise w"
  "rejectConnectionPromise (scheduleReconnect w) = rejectConnectionPromise w"
  "listeners (scheduleReconnect w) = listeners w"
  "readyStateOf (scheduleReconnect w) = readyStateOf w"
  "socketsCreated (scheduleReconnect w) = socketsCreated w"
  "listening (scheduleReconnect w) = listening w"
  "closeCalls (scheduleReconnect w) = closeCalls w"
  "promiseOf (scheduleReconnect w) = promiseOf w"
  "promisesCreated (scheduleReconnect w) = promisesCreated w"
  "ctorThrows (scheduleReconnect w) = ctorThrows w"
  "suspended (scheduleReconnect w) = suspended w"
  "emitted (scheduleReconnect w) = emitted w"
  "transmitted (scheduleReconnect w) = transmitted w"
  by (simp_all add: scheduleReconnect_def Let_def setTimeout_def console_say_def)

lemma onopen_same [simp]:
  "ws (onopen w) = ws w"
  "connectionPromise (onopen w) = connectionPromise w"
  "reconnectTimeoutId (onopen w) = reconnectTimeoutId w"
  "listeners (onopen w) = listeners w"
  "readyStateOf (onopen w) = readyStateOf w"
  "socketsCreated (onopen w) = socketsCreated w"
  "listening (onopen w) = listening w"
  "closeCalls (onopen w) = closeCalls w"
  "promisesCreated (onopen w) = promisesCreated w"
  "timers (onopen w) = timers w"
  "timersCreated (onopen w) = timersCreated w"
  "ctorThrows (onopen w) = ctorThrows w"
  "suspended (onopen w) = suspended w"
  "transmitted (onopen w) = transmitted w"
  "resolveConnectionPromise (onopen w) = None"
  "rejectConnectionPromise (onopen w) = None"
  "reconnectAttempts (onopen w) = 0"
  by (simp_all add: onopen_def Let_def split: option.splits)

lemma onerror_same [simp]:
  "ws (onerror w) = ws w"
  "connectionPromise (onerror w) = connectionPromise w"
  "reconnectAttempts (onerror w) = reconnectAttempts w"
  "reconnectTimeoutId (onerror w) = reconnectTimeoutId w"
  "listeners (onerror w) = listeners w"
  "readyStateOf (onerror w) = readyStateOf w"
  "socketsCreated (onerror w) = socketsCreated w"
  "listening (onerror w) = listening w"
  "closeCalls (onerror w) = closeCalls w"
  "promisesCreated (onerror w) = promisesCreated w"
  "timers (onerror w) = timers w"
  "timersCreated (onerror w) = timersCreated w"
  "ctorThrows (onerror w) = ctorThrows w"
  "suspended (onerror w) = suspended w"
  "transmitted (onerror w) = transmitted w"
  by (simp_all add: onerror_def Let_def split: option.splits)

lemma onclose_same [simp]:
  "connectionPromise (onclose code w) = connectionPromise w"
  "listeners (onclose code w) = listeners w"
  "readyStateOf (onclose code w) = readyStateOf w"
  "socketsCreated (onclose code w) = socketsCreated w"
  "listening (onclose code w) = listening w"
  "closeCalls (onclose code w) = closeCalls w"
  "promisesCreated (onclose code w) = promisesCreated w"
  "ctorThrows (onclose code w) = ctorThrows w"
  "suspended (onclose code w) = suspended w"
  "transmitted (onclose code w) = transmitted w"
  "ws (onclose code w) = None"
  by (simp_all add: onclose_def Let_def split: option.splits)

lemma onmessage_same [simp]:
  "ws (onmessage P d w) = ws w"
  "connectionPromise (onmessage P d w) = connectionPromise w"
  "resolveConnectionPromise (onmessage P d w) = resolveConnectionPromise w"
  "rejectConnectionPromise (onmessage P d w) = rejectConnectionPromise w"
  "reconnectAttempts (onmessage P d w) = reconnectAttempts w"
  "reconnectTimeoutId (onmessage P d w) = reconnectTimeoutId w"
  "listeners (onmessage P d w) = listeners w"
  "readyStateOf (onmessage P d w) = readyStateOf w"
  "socketsCreated (onmessage P d w) = socketsCreated w"
  "listening (onmessage P d w) = listening w"
  "closeCalls (onmessage P d w) = closeCalls w"
  "promiseOf (onmessage P d w) = promiseOf w"
  "promisesCreated (onmessage P d w) = promisesCreated w"
  "timers (onmessage P d w) = timers w"
  "timersCreated (onmessage P d w) = timersCreated w"
  "ctorThrows (onmessage P d w) = ctorThrows w"
  "suspended (onmessage P d w) = suspended w"
  "transmitted (onmessage P d w) = transmitted w"
  by (simp_all add: onmessage_def Let_def split: option.splits)

lemma send_failed_same [simp]:
  "ws (send_failed w) = ws w"
  "connectionPromise (send_failed w) = connectionPromise w"
  "resolveConnectionPromise (send_failed w) = resolveConnectionPromise w"
  "rejectConnectionPromise (send_failed w) = rejectConnectionPromise w"
  "reconnectAttempts (send_failed w) = reconnectAttempts w"
  "reconnectTimeoutId (send_failed w) = reconnectTimeoutId w"
  "listeners (send_failed w) = listeners w"
  "readyStateOf (send_failed w) = readyStateOf w"
  "socketsCreated (send_failed w) = socketsCreated w"
  "listening (send_failed w) = listening w"
  "closeCalls (send_failed w) = closeCalls w"
  "promiseOf (send_failed w) = promiseOf w"
  "promisesCreated (send_failed w) = promisesCreated w"
  "timers (send_failed w) = timers w"
  "timersCreated (send_failed w) = timersCreated w"
  "ctorThrows (send_failed w) = ctorThrows w"
  "suspended (send_failed w) = suspended w"
  "transmitted (send_failed w) = transmitted w"
  by (simp_all add: send_failed_def)

lemma send_if_connected_same [simp]:
  "ws (send_if_connected P c pl w) = ws w"
  "connectionPromise (send_if_connected P c pl w) = connectionPromise w"
  "resolveConnectionPromise (send_if_connected P c pl w) = resolveConnectionPromise w"
  "rejectConnectionPromise (send_if_connected P c pl w) = rejectConnectionPromise w"
  "reconnectAttempts (send_if_connected P c pl w) = reconnectAttempts w"
  "reconnectTimeoutId (send_if_connected P c pl w) = reconnectTimeoutId w"
  "listeners (send_if_connected P c pl w) = listeners w"
  "readyStateOf (send_if_connected P c pl w) = readyStateOf w"
  "socketsCreated (send_if_connected P c pl w) = socketsCreated w"
  "listening (send_if_connected P c pl w) = listening w"
  "closeCalls (send_if_connected P c pl w) = closeCalls w"
  "promiseOf (send_if_connected P c pl w) = promiseOf w"
  "promisesCreated (send_if_connected P c pl w) = promisesCreated w"
  "timers (send_if_connected P c pl w) = timers w"
  "timersCreated (send_if_connected P c pl w) = timersCreated w"
  "ctorThrows (send_if_connected P c pl w) = ctorThrows w"
  "suspended (send_if_connected P c pl w) = suspended w"
  by (simp_all add: send_if_connected_def ws_send_def Let_def split: option.splits readyState.splits)

lemma sendCommand_resume_same [simp]:
  "ws (sendCommand_resume P k w) = ws w"
  "connectionPromise (sendCommand_resume P k w) = connectionPromise w"
  "resolveConnectionPromise (sendCommand_resume P k w) = resolveConnectionPromise w"
  "rejectConnectionPromise (sendCommand_resume P k w) = rejectConnectionPromise w"
  "reconnectAttempts (sendCommand_resume P k w) = reconnectAttempts w"
  "reconnectTimeoutId (sendCommand_resume P k w) = reconnectTimeoutId w"
  "listeners (sendCommand_resume P k w) = listeners w"
  "readyStateOf (sendCommand_resume P k w) = readyStateOf w"
  "socketsCreated (sendCommand_resume P k w) = socketsCreated w"
  "listening (sendCommand_resume P k w) = listening w"
  "closeCalls (sendCommand_resume P k w) = closeCalls w"
  "promiseOf (sendCommand_resume P k w) = promiseOf w"
  "promisesCreated (sendCommand_resume P k w) = promisesCreated w"
  "timers (sendCommand_resume P k w) = timers w"
  "timersCreated (sendCommand_resume P k w) = timersCreated w"
  "ctorThrows (sendCommand_resume P k w) = ctorThrows w"
  "suspended (sendCommand_resume P k w) = suspended w"
  by (simp_all add: sendCommand_resume_def split: prod.splits)
subsection \<open>The branches of \<open>connect\<close>\<close>

lemma connected_or_connecting_cancel [simp]:
  "connected_or_connecting (cancel_reconnect_timeout w) = connected_or_connecting w"
  by (simp add: connected_or_connecting_def split: option.splits)

lemma reconnectTimeoutId_cancel:
  "reconnectTimeoutId (cancel_reconnect_timeout w) =
     (if truthy (reconnectTimeoutId w) then None else reconnectTimeoutId w)"
  by (simp add: cancel_reconnect_timeout_def truthy_def split: option.splits)

lemma timers_cancel:
  "timers (cancel_reconnect_timeout w) =
     (case reconnectTimeoutId w of
        None \<Rightarrow> timers w
      | Some t \<Rightarrow> if t \<noteq> 0 then filter (\<lambda>e. fst e \<noteq> t) (timers w) else timers w)"
  by (simp add: cancel_reconnect_timeout_def truthy_def split: option.splits)

lemma connect_already:
  assumes "connected_or_connecting w" "connectionPromise w = Some p"
  shows "connect w =
           (p, console_say Log ''[WS] Already connected or connecting.''
                 (cancel_reconnect_timeout w))"
  using assms by (simp add: connect_def Let_def)

lemma connect_already_no_promise:
  assumes "connected_or_connecting w" "connectionPromise w = None"
  shows "connect w =
           Promise_resolve (console_say Log ''[WS] Already connected or connecting.''
                 (cancel_reconnect_timeout w))"
  using assms by (simp add: connect_def Let_def)

lemma connect_attempt:
  assumes "\<not> connected_or_connecting w" "\<not> ctorThrows w"
  shows "connect w =
           (promisesCreated w,
            (console_say Log ''[WS] Attempting to connect...'' (cancel_reconnect_timeout w))
              \<lparr>promiseOf := (promiseOf w)(promisesCreated w := Pending),
                promisesCreated := Suc (promisesCreated w),
                connectionPromise := Some (promisesCreated w),
                resolveConnectionPromise := Some (promisesCreated w),
                rejectConnectionPromise := Some (promisesCreated w),
                readyStateOf := (readyStateOf w)(socketsCreated w := CONNECTING),
                socketsCreated := Suc (socketsCreated w),
                ws := Some (socketsCreated w),
                listening := insert (socketsCreated w) (listening w)\<rparr>)"
  using assms
  by (simp add: connect_def Let_def new_Promise_def new_WebSocket_def setupEventListeners_def)

lemma connect_throws:
  assumes "\<not> connected_or_connecting w" "ctorThrows w"
  shows "connect w =
           (promisesCreated w,
            scheduleReconnect
              (emit ''disconnected'' NoArg
                 (console_say Error ''[WS] Connection failed immediately:''
                   ((console_say Log ''[WS] Attempting to connect...'' (cancel_reconnect_timeout w))
                     \<lparr>promiseOf := (promiseOf w)(promisesCreated w := Pending),
                       promisesCreated := Suc (promisesCreated w),
                       connectionPromise := Some (promisesCreated w),
                       resolveConnectionPromise := Some (promisesCreated w),
                       rejectConnectionPromise := Some (promisesCreated w)\<rparr>))
              \<lparr>promiseOf := (promiseOf w)(promisesCreated w := Rejected ConstructorError)\<rparr>))"
  using assms
  by (simp add: connect_def Let_def new_Promise_def reject_def emit_def console_say_def)

lemma connect_same [simp]:
  "ctorThrows (snd (connect w)) = ctorThrows w"
  "listeners (snd (connect w)) = listeners w"
  "closeCalls (snd (connect w)) = closeCalls w"
  "suspended (snd (connect w)) = suspended w"
  "transmitted (snd (connect w)) = transmitted w"
  "reconnectAttempts (snd (connect w)) =
     (if \<not> connected_or_connecting w \<and> ctorThrows w
      then reconnectAttempts (scheduleReconnect (cancel_reconnect_timeout w))
      else reconnectAttempts w)"
proof -
  consider (a) p where "connected_or_connecting w" "connectionPromise w = Some p"
    | (b) "connected_or_connecting w" "connectionPromise w = None"
    | (c) "\<not> connected_or_connecting w" "\<not> ctorThrows w"
    | (d) "\<not> connected_or_connecting w" "ctorThrows w"
    by (cases "connectionPromise w") auto
  then have "ctorThrows (snd (connect w)) = ctorThrows w
    \<and> listeners (snd (connect w)) = listeners w
    \<and> closeCalls (snd (connect w)) = closeCalls w
    \<and> suspended (snd (connect w)) = suspended w
    \<and> transmitted (snd (connect w)) = transmitted w
    \<and> reconnectAttempts (snd (connect w)) =
     (if \<not> connected_or_connecting w \<and> ctorThrows w
      then reconnectAttempts (scheduleReconnect (cancel_reconnect_timeout w))
      else reconnectAttempts w)"
  proof cases
    case a then show ?thesis by (simp add: connect_already)
  next
    case b then show ?thesis by (simp add: connect_already_no_promise Promise_resolve_def)
  next
    case c then show ?thesis by (simp add: connect_attempt)
  next
    case d then show ?thesis
      by (simp add: connect_throws scheduleReconnect_def Let_def setTimeout_def console_say_def)
  qed
  then show
    "ctorThrows (snd (connect w)) = ctorThrows w"
    "listeners (snd (connect w)) = listeners w"
    "closeCalls (snd (connect w)) = closeCalls w"
    "suspended (snd (connect w)) = suspended w"
    "transmitted (snd (connect w)) = transmitted w"
    "reconnectAttempts (snd (connect w)) =
     (if \<not> connected_or_connecting w \<and> ctorThrows w
      then reconnectAttempts (scheduleReconnect (cancel_reconnect_timeout w))
      else reconnectAttempts w)"
    by simp_all
qed

subsection \<open>The branches of \<open>disconnect\<close> and \<open>sendCommand\<close>\<close>

lemma disconnect_no_socket:
  assumes "ws w = None"
  shows "disconnect r w =
           (Returns, emit ''disconnected'' NoArg
              ((cancel_reconnect_timeout w)\<lparr>reconnectAttempts := maxReconnectAttempts\<rparr>))"
  using assms by (simp add: disconnect_def Let_def)

lemma disconnect_socket:
  assumes "ws w = Some s" "length r \<le> 123"
  shows "disconnect r w =
           (Returns, emit ''disconnected'' NoArg
              ((console_say Log ''[WS] Manually disconnecting...''
                 ((cancel_reconnect_timeout w)\<lparr>reconnectAttempts := maxReconnectAttempts\<rparr>))
               \<lparr>closeCalls := closeCalls w @ [(s, 1000, r)],
                 readyStateOf := (readyStateOf w)
                   (s := (if readyStateOf w s = CONNECTING \<or> readyStateOf w s = OPEN
                          then CLOSING else readyStateOf w s)),
                 ws := None\<rparr>))"
  using assms by (simp add: disconnect_def Let_def ws_close_def)

lemma disconnect_throws:
  assumes "ws w = Some s" "123 < length r"
  shows "disconnect r w =
           (Throws, console_say Log ''[WS] Manually disconnecting...''
              ((cancel_reconnect_timeout w)\<lparr>reconnectAttempts := maxReconnectAttempts\<rparr>))"
  using assms by (simp add: disconnect_def Let_def ws_close_def)

lemma disconnect_cases:
  obtains (no_socket) "ws w = None"
  | (socket) s where "ws w = Some s" "length r \<le> 123"
  | (throws) s where "ws w = Some s" "123 < length r"
  by (cases "ws w"; cases "length r \<le> 123") auto

lemma disconnect_same [simp]:
  "connectionPromise (snd (disconnect r w)) = connectionPromise w"
  "resolveConnectionPromise (snd (disconnect r w)) = resolveConnectionPromise w"
  "rejectConnectionPromise (snd (disconnect r w)) = rejectConnectionPromise w"
  "reconnectAttempts (snd (disconnect r w)) = maxReconnectAttempts"
  "reconnectTimeoutId (snd (disconnect r w)) = reconnectTimeoutId (cancel_reconnect_timeout w)"
  "timers (snd (disconnect r w)) = timers (cancel_reconnect_timeout w)"
  "listeners (snd (disconnect r w)) = listeners w"
  "socketsCreated (snd (disconnect r w)) = socketsCreated w"
  "listening (snd (disconnect r w)) = listening w"
  "promiseOf (snd (disconnect r w)) = promiseOf w"
  "promisesCreated (snd (disconnect r w)) = promisesCreated w"
  "timersCreated (snd (disconnect r w)) = timersCreated w"
  "ctorThrows (snd (disconnect r w)) = ctorThrows w"
  "suspended (snd (disconnect r w)) = suspended w"
  "transmitted (snd (disconnect r w)) = transmitted w"
  by (rule disconnect_cases [where w = w and r = r];
      simp add: disconnect_no_socket disconnect_socket disconnect_throws)+

lemma sendCommand_connected:
  assumes "isConnected w"
  shows "sendCommand P c pl w = send_if_connected P c pl w"
  using assms by (simp add: sendCommand_def)

lemma sendCommand_waits:
  assumes "\<not> isConnected w" "\<not> should_trigger_connect w"
  shows "sendCommand P c pl w =
           (console_say Log ''[WS] Connection not established. Waiting...'' w)
             \<lparr>suspended := suspended w @ [(connectionPromise w, c, pl)]\<rparr>"
proof -
  have "should_trigger_connect (console_say Log ''[WS] Connection not established. Waiting...'' w)
          = should_trigger_connect w"
    by (simp add: should_trigger_connect_def split: option.splits)
  with assms show ?thesis by (simp add: sendCommand_def Let_def)
qed

lemma sendCommand_connects:
  assumes "\<not> isConnected w" "should_trigger_connect w"
  shows "sendCommand P c pl w =
           (snd (connect (console_say Log ''[WS] Triggering connection attempt before sending...''
                   (console_say Log ''[WS] Connection not established. Waiting...'' w))))
             \<lparr>suspended := suspended w @
                 [(connectionPromise
                     (snd (connect (console_say Log
                        ''[WS] Triggering connection attempt before sending...''
                        (console_say Log ''[WS] Connection not established. Waiting...'' w)))),
                   c, pl)]\<rparr>"
proof -
  have "should_trigger_connect (console_say Log ''[WS] Connection not established. Waiting...'' w)
          = should_trigger_connect w"
    by (simp add: should_trigger_connect_def split: option.splits)
  with assms show ?thesis by (simp add: sendCommand_def Let_def)
qed

subsection \<open>Continuing the suspended calls\<close>

lemma resume_all_same [simp]:
  "ws (foldl (\<lambda>v k. sendCommand_resume P k v) w ks) = ws w"
  "connectionPromise (foldl (\<lambda>v k. sendCommand_resume P k v) w ks) = connectionPromise w"
  "resolveConnectionPromise (foldl (\<lambda>v k. sendCommand_resume P k v) w ks) = resolveConnectionPromise w"
  "rejectConnectionPromise (foldl (\<lambda>v k. sendCommand_resume P k v) w ks) = rejectConnectionPromise w"
  "reconnectAttempts (foldl (\<lambda>v k. sendCommand_resume P k v) w ks) = reconnectAttempts w"
  "reconnectTimeoutId (foldl (\<lambda>v k. sendCommand_resume P k v) w ks) = reconnectTimeoutId w"
  "listeners (foldl (\<lambda>v k. sendCommand_resume P k v) w ks) = listeners w"
  "readyStateOf (foldl (\<lambda>v k. sendCommand_resume P k v) w ks) = readyStateOf w"
  "socketsCreated (foldl (\<lambda>v k. sendCommand_resume P k v) w ks) = socketsCreated w"
  "listening (foldl (\<lambda>v k. sendCommand_resume P k v) w ks) = listening w"
  "closeCalls (foldl (\<lambda>v k. sendCommand_resume P k v) w ks) = closeCalls w"
  "promiseOf (foldl (\<lambda>v k. sendCommand_resume P k v) w ks) = promiseOf w"
  "promisesCreated (foldl (\<lambda>v k. sendCommand_resume P k v) w ks) = promisesCreated w"
  "timers (foldl (\<lambda>v k. sendCommand_resume P k v) w ks) = timers w"
  "timersCreated (foldl (\<lambda>v k. sendCommand_resume P k v) w ks) = timersCreated w"
  "ctorThrows (foldl (\<lambda>v k. sendCommand_resume P k v) w ks) = ctorThrows w"
  "suspended (foldl (\<lambda>v k. sendCommand_resume P k v) w ks) = suspended w"
  by (induction ks arbitrary: w; simp)+

lemma run_microtasks_same [simp]:
  "ws (run_microtasks P w) = ws w"
  "connectionPromise (run_microtasks P w) = connectionPromise w"
  "resolveConnectionPromise (run_microtasks P w) = resolveConnectionPromise w"
  "rejectConnectionPromise (run_microtasks P w) = rejectConnectionPromise w"
  "reconnectAttempts (run_microtasks P w) = reconnectAttempts w"
  "reconnectTimeoutId (run_microtasks P w) = reconnectTimeoutId w"
  "listeners (run_microtasks P w) = listeners w"
  "readyStateOf (run_microtasks P w) = readyStateOf w"
  "socketsCreated (run_microtasks P w) = socketsCreated w"
  "listening (run_microtasks P w) = listening w"
  "closeCalls (run_microtasks P w) = closeCalls w"
  "promiseOf (run_microtasks P w) = promiseOf w"
  "promisesCreated (run_microtasks P w) = promisesCreated w"
  "timers (run_microtasks P w) = timers w"
  "timersCreated (run_microtasks P w) = timersCreated w"
  "ctorThrows (run_microtasks P w) = ctorThrows w"
  by (simp_all add: run_microtasks_def)

lemma run_Nil [simp]: "run P [] w = w"
  by (simp add: run_def)

lemma run_Cons [simp]: "run P (e # evs) w = run P evs (step P e w)"
  by (simp add: run_def)

lemma run_snoc: "run P (evs @ [e]) w = step P e (run P evs w)"
  by (simp add: run_def)

subsection \<open>The gate invariant\<close>

lemma gate_inv_alt:
  "gate_inv w \<longleftrightarrow>
     reconnectTimeoutId w \<noteq> Some 0 \<and>
     (ctorThrows w \<longrightarrow> ws w = None) \<and>
     (\<forall>s. ws w = Some s \<longrightarrow>
        s \<in> listening w \<and> s < socketsCreated w \<and> reconnectTimeoutId w = None \<and>
        (readyStateOf w s = CONNECTING \<longrightarrow>
           (\<exists>p. connectionPromise w = Some p \<and>
              (promiseOf w p = Fulfilled \<or>
               (promiseOf w p = Pending \<and> resolveConnectionPromise w = Some p)))) \<and>
        (readyStateOf w s = OPEN \<longrightarrow>
           (\<exists>p. connectionPromise w = Some p \<and> promiseOf w p = Fulfilled)))"
  by (auto simp add: gate_inv_def split: option.splits)

lemma gate_inv_cong:
  assumes "ws w' = ws w" "connectionPromise w' = connectionPromise w"
    "resolveConnectionPromise w' = resolveConnectionPromise w"
    "promiseOf w' = promiseOf w" "readyStateOf w' = readyStateOf w"
    "listening w' = listening w" "socketsCreated w' = socketsCreated w"
    "reconnectTimeoutId w' = reconnectTimeoutId w" "ctorThrows w' = ctorThrows w"
  shows "gate_inv w' = gate_inv w"
  by (simp add: gate_inv_alt assms)

lemma gate_inv_no_socket:
  assumes "ws w = None" "reconnectTimeoutId w \<noteq> Some 0"
  shows "gate_inv w"
  using assms by (simp add: gate_inv_def)

lemma gate_inv_nonzero:
  assumes "gate_inv w"
  shows "reconnectTimeoutId w \<noteq> Some 0"
  using assms by (simp add: gate_inv_def)

lemma scheduleReconnect_nonzero:
  assumes "reconnectTimeoutId w \<noteq> Some 0"
  shows "reconnectTimeoutId (scheduleReconnect w) \<noteq> Some 0"
  using assms
  by (simp add: scheduleReconnect_def Let_def setTimeout_def console_say_def)

lemma cancel_nonzero:
  assumes "reconnectTimeoutId w \<noteq> Some 0"
  shows "reconnectTimeoutId (cancel_reconnect_timeout w) = None"
  using assms by (cases "reconnectTimeoutId w") (simp_all add: reconnectTimeoutId_cancel truthy_def)

lemma gate_inv_initial: "gate_inv (initial_world c)"
  by (simp add: gate_inv_no_socket initial_world_def)

lemma gate_inv_console_say [simp]: "gate_inv (console_say l m w) = gate_inv w"
  by (rule gate_inv_cong) simp_all

lemma gate_inv_emit [simp]: "gate_inv (emit ev a w) = gate_inv w"
  by (rule gate_inv_cong) simp_all

lemma gate_inv_on_ev [simp]: "gate_inv (on_ev ev f c w) = gate_inv w"
  by (rule gate_inv_cong) simp_all

lemma gate_inv_onmessage [simp]: "gate_inv (onmessage P d w) = gate_inv w"
  by (rule gate_inv_cong) simp_all

lemma gate_inv_send_if_connected [simp]: "gate_inv (send_if_connected P c pl w) = gate_inv w"
  by (rule gate_inv_cong) simp_all

lemma gate_inv_run_microtasks [simp]: "gate_inv (run_microtasks P w) = gate_inv w"
  by (rule gate_inv_cong) simp_all

lemma gate_inv_suspended [simp]: "gate_inv (w\<lparr>suspended := x\<rparr>) = gate_inv w"
  by (rule gate_inv_cong) simp_all

lemma cancel_reconnect_timeout_id:
  assumes "reconnectTimeoutId w = None"
  shows "cancel_reconnect_timeout w = w"
  using assms by (simp add: cancel_reconnect_timeout_def)

lemma gate_inv_timeout_None:
  assumes "gate_inv w" "ws w = Some s"
  shows "reconnectTimeoutId w = None"
  using assms by (simp add: gate_inv_alt)

lemma gate_inv_cancel:
  assumes "gate_inv w"
  shows "gate_inv (cancel_reconnect_timeout w)"
proof (cases "ws w")
  case None
  with assms show ?thesis
    by (simp add: gate_inv_no_socket gate_inv_nonzero cancel_nonzero)
next
  case (Some s)
  with assms show ?thesis
    by (simp add: cancel_reconnect_timeout_id gate_inv_timeout_None)
qed

lemma gate_inv_connect:
  assumes "gate_inv w"
  shows "gate_inv (snd (connect w))"
proof -
  consider (a) p where "connected_or_connecting w" "connectionPromise w = Some p"
    | (b) "connected_or_connecting w" "connectionPromise w = None"
    | (c) "\<not> connected_or_connecting w" "\<not> ctorThrows w"
    | (d) "\<not> connected_or_connecting w" "ctorThrows w"
    by (cases "connectionPromise w") auto
  then show ?thesis
  proof cases
    case a
    with assms show ?thesis by (simp add: connect_already gate_inv_cancel)
  next
    case b
    with assms have False
      by (auto simp add: gate_inv_alt connected_or_connecting_def split: option.splits)
    then show ?thesis ..
  next
    case c
    with assms show ?thesis
      by (simp add: connect_attempt gate_inv_alt gate_inv_nonzero cancel_nonzero)
  next
    case d
    with assms have "ws w = None" by (simp add: gate_inv_def)
    with d assms show ?thesis
      by (simp add: connect_throws gate_inv_no_socket gate_inv_nonzero cancel_nonzero
          scheduleReconnect_nonzero)
  qed
qed

lemma onopen_promiseOf:
  "promiseOf (onopen w) =
     (case resolveConnectionPromise w of
        None \<Rightarrow> promiseOf w
      | Some p \<Rightarrow> if promiseOf w p = Pending then (promiseOf w)(p := Fulfilled) else promiseOf w)"
  by (simp add: onopen_def Let_def split: option.splits)

lemma onopen_keeps_Fulfilled:
  assumes "promiseOf w p = Fulfilled"
  shows "promiseOf (onopen w) p = Fulfilled"
  using assms by (simp add: onopen_promiseOf split: option.splits)

lemma onopen_resolves:
  assumes "promiseOf w p = Pending" "resolveConnectionPromise w = Some p"
  shows "promiseOf (onopen w) p = Fulfilled"
  using assms by (simp add: onopen_promiseOf)

lemma gate_inv_onopen:
  assumes "gate_inv w" "readyStateOf w s = CONNECTING"
  shows "gate_inv (onopen (set_readyState s OPEN w))"
proof -
  let ?v = "set_readyState s OPEN w"
  have keep: "\<And>p. promiseOf w p = Fulfilled \<Longrightarrow> promiseOf (onopen ?v) p = Fulfilled"
    by (rule onopen_keeps_Fulfilled) simp
  have res: "\<And>p. promiseOf w p = Pending \<Longrightarrow> resolveConnectionPromise w = Some p
              \<Longrightarrow> promiseOf (onopen ?v) p = Fulfilled"
    by (rule onopen_resolves) simp_all
  show ?thesis
  proof (cases "ws w")
    case None
    with assms show ?thesis by (simp add: gate_inv_no_socket gate_inv_nonzero)
  next
    case (Some t)
    from assms(1) Some have base: "t \<in> listening w" "t < socketsCreated w"
      "reconnectTimeoutId w = None" "\<not> ctorThrows w"
      by (auto simp add: gate_inv_alt)
    have gate: "\<exists>p. connectionPromise w = Some p \<and> promiseOf (onopen ?v) p = Fulfilled"
      if "readyStateOf ?v t = OPEN"
    proof (cases "t = s")
      case True
      with assms Some obtain p where "connectionPromise w = Some p"
        "promiseOf w p = Fulfilled \<or> (promiseOf w p = Pending \<and> resolveConnectionPromise w = Some p)"
        by (auto simp add: gate_inv_alt)
      then show ?thesis using keep res by blast
    next
      case False
      with that have "readyStateOf w t = OPEN" by simp
      with assms(1) Some obtain p where "connectionPromise w = Some p" "promiseOf w p = Fulfilled"
        by (auto simp add: gate_inv_alt)
      then show ?thesis using keep by blast
    qed
    have gate': "\<exists>p. connectionPromise w = Some p \<and> promiseOf (onopen ?v) p = Fulfilled"
      if "readyStateOf ?v t = CONNECTING"
    proof -
      from that have "t \<noteq> s" by auto
      with that have "readyStateOf w t = CONNECTING" by simp
      with assms(1) Some obtain p where "connectionPromise w = Some p"
        "promiseOf w p = Fulfilled \<or> (promiseOf w p = Pending \<and> resolveConnectionPromise w = Some p)"
        by (auto simp add: gate_inv_alt)
      then show ?thesis using keep res by blast
    qed
    from Some base gate gate' show ?thesis
      by (simp add: gate_inv_alt)
  qed
qed

lemma gate_inv_onerror_onclose:
  assumes "reconnectTimeoutId w \<noteq> Some 0"
  shows "gate_inv (onclose code w)"
proof -
  have "reconnectTimeoutId (onclose code w) \<noteq> Some 0"
    using assms
    by (simp add: onclose_def Let_def scheduleReconnect_nonzero split: option.splits)
  then show ?thesis by (simp add: gate_inv_no_socket)
qed

lemma gate_inv_set_readyState:
  assumes "gate_inv w" "r \<noteq> OPEN" "r \<noteq> CONNECTING"
  shows "gate_inv (set_readyState s r w)"
  using assms by (simp add: gate_inv_alt)

lemma gate_inv_set_OPEN:
  assumes "gate_inv w" "readyStateOf w s = CONNECTING" "ws w \<noteq> Some s"
  shows "gate_inv (set_readyState s OPEN w)"
  using assms by (simp add: gate_inv_alt)

lemma gate_inv_disconnect:
  assumes "gate_inv w"
  shows "gate_inv (snd (disconnect r w))"
proof (rule disconnect_cases [where w = w and r = r])
  assume "ws w = None"
  with assms show ?thesis
    by (simp add: disconnect_no_socket gate_inv_no_socket gate_inv_nonzero cancel_nonzero)
next
  fix s assume "ws w = Some s" "length r \<le> 123"
  with assms show ?thesis
    by (simp add: disconnect_socket gate_inv_no_socket gate_inv_nonzero cancel_nonzero)
next
  fix s assume h: "ws w = Some s" "123 < length r"
  with assms have "cancel_reconnect_timeout w = w"
    by (simp add: cancel_reconnect_timeout_id gate_inv_timeout_None)
  moreover have "gate_inv (w\<lparr>reconnectAttempts := maxReconnectAttempts\<rparr>) = gate_inv w"
    by (rule gate_inv_cong) simp_all
  ultimately show ?thesis using assms h by (simp add: disconnect_throws)
qed

lemma gate_inv_timeout_callback:
  assumes "gate_inv w"
  shows "gate_inv (timeout_callback (clearTimeout t w))"
proof -
  have "gate_inv (clearTimeout t w\<lparr>reconnectTimeoutId := None\<rparr>)"
    using assms by (simp add: gate_inv_alt)
  then show ?thesis unfolding timeout_callback_def by (rule gate_inv_connect)
qed

lemma gate_inv_sendCommand:
  assumes "gate_inv w"
  shows "gate_inv (sendCommand P c pl w)"
proof (cases "isConnected w")
  case True
  with assms show ?thesis by (simp add: sendCommand_connected)
next
  case False
  show ?thesis
  proof (cases "should_trigger_connect w")
    case True
    have "gate_inv (snd (connect (console_say Log
            ''[WS] Triggering connection attempt before sending...''
            (console_say Log ''[WS] Connection not established. Waiting...'' w))))"
      using assms by (intro gate_inv_connect) simp
    with False True show ?thesis by (simp add: sendCommand_connects)
  next
    case no: False
    with False assms show ?thesis by (simp add: sendCommand_waits)
  qed
qed

lemma gate_inv_handle:
  assumes "gate_inv w"
  shows "gate_inv (handle P e w)"
proof (cases e)
  case CallConnect
  with assms show ?thesis by (simp add: gate_inv_connect)
next
  case (CallDisconnect r)
  with assms show ?thesis by (simp add: gate_inv_disconnect)
next
  case (CallSendCommand c pl)
  with assms show ?thesis by (simp add: gate_inv_sendCommand)
next
  case (CallOn ev f c)
  with assms show ?thesis by simp
next
  case (SocketOpen s)
  show ?thesis
  proof (cases "ws w = Some s")
    case True
    with assms have "s \<in> listening w" by (simp add: gate_inv_alt)
    with assms SocketOpen show ?thesis by (simp add: gate_inv_onopen)
  next
    case False
    with assms SocketOpen show ?thesis by (simp add: gate_inv_onopen gate_inv_set_OPEN)
  qed
next
  case (SocketMessage s d)
  with assms show ?thesis by simp
next
  case (SocketClosing s)
  with assms show ?thesis by (simp add: gate_inv_set_readyState)
next
  case (SocketFail s code)
  with assms show ?thesis
    by (simp add: gate_inv_set_readyState gate_inv_onerror_onclose gate_inv_nonzero)
next
  case (SocketClose s code)
  with assms show ?thesis
    by (simp add: gate_inv_set_readyState gate_inv_onerror_onclose gate_inv_nonzero)
next
  case (TimerFire t)
  with assms show ?thesis by (simp add: gate_inv_timeout_callback)
qed

lemma gate_inv_step:
  assumes "gate_inv w"
  shows "gate_inv (step P e w)"
  using assms by (simp add: step_def gate_inv_handle)

lemma gate_inv_run:
  assumes "gate_inv w"
  shows "gate_inv (run P evs w)"
  using assms by (induction evs arbitrary: w) (simp_all add: gate_inv_step)

lemma gate_inv_reachable: "gate_inv (run P evs (initial_world c))"
  by (simp add: gate_inv_run gate_inv_initial)

subsection \<open>The timeout invariant\<close>

lemma timer_inv_alt:
  "timer_inv w \<longleftrightarrow>
     (reconnectTimeoutId w = None \<and> timers w = []) \<or>
     (\<exists>t. reconnectTimeoutId w = Some t \<and> t \<noteq> 0 \<and> t \<le> timersCreated w
          \<and> map fst (timers w) = [t])"
  by (auto simp add: timer_inv_def split: option.splits)

lemma timer_inv_cong:
  assumes "reconnectTimeoutId w' = reconnectTimeoutId w" "timers w' = timers w"
    "timersCreated w' = timersCreated w"
  shows "timer_inv w' = timer_inv w"
  by (simp add: timer_inv_alt assms)

lemma timer_inv_idle:
  assumes "reconnectTimeoutId w = None" "timers w = []"
  shows "timer_inv w"
  using assms by (simp add: timer_inv_alt)

lemma timer_inv_initial: "timer_inv (initial_world c)"
  by (simp add: timer_inv_idle initial_world_def)

lemma timer_inv_length:
  assumes "timer_inv w"
  shows "length (timers w) \<le> 1"
proof -
  from assms have "length (map fst (timers w)) \<le> 1"
    by (auto simp add: timer_inv_alt)
  then show ?thesis by simp
qed

lemma timer_inv_console_say [simp]: "timer_inv (console_say l m w) = timer_inv w"
  by (rule timer_inv_cong) simp_all

lemma timer_inv_emit [simp]: "timer_inv (emit ev a w) = timer_inv w"
  by (rule timer_inv_cong) simp_all

lemma timer_inv_on_ev [simp]: "timer_inv (on_ev ev f c w) = timer_inv w"
  by (rule timer_inv_cong) simp_all

lemma timer_inv_onmessage [simp]: "timer_inv (onmessage P d w) = timer_inv w"
  by (rule timer_inv_cong) simp_all

lemma timer_inv_onopen [simp]: "timer_inv (onopen w) = timer_inv w"
  by (rule timer_inv_cong) simp_all

lemma timer_inv_onerror [simp]: "timer_inv (onerror w) = timer_inv w"
  by (rule timer_inv_cong) simp_all

lemma timer_inv_set_readyState [simp]: "timer_inv (set_readyState s r w) = timer_inv w"
  by (rule timer_inv_cong) simp_all

lemma timer_inv_send_if_connected [simp]: "timer_inv (send_if_connected P c pl w) = timer_inv w"
  by (rule timer_inv_cong) simp_all

lemma timer_inv_run_microtasks [simp]: "timer_inv (run_microtasks P w) = timer_inv w"
  by (rule timer_inv_cong) simp_all

lemma timer_inv_suspended [simp]: "timer_inv (w\<lparr>suspended := x\<rparr>) = timer_inv w"
  by (rule timer_inv_cong) simp_all

lemma filter_only_timer:
  assumes "map fst ts = [t]"
  shows "filter (\<lambda>e. fst e \<noteq> t) ts = []"
  using assms by (cases ts) auto

lemma cancel_clears:
  assumes "timer_inv w"
  shows "reconnectTimeoutId (cancel_reconnect_timeout w) = None"
    and "timers (cancel_reconnect_timeout w) = []"
  using assms
  by (auto simp add: timer_inv_alt reconnectTimeoutId_cancel timers_cancel truthy_def
      filter_only_timer)

lemma timer_inv_cancel:
  assumes "timer_inv w"
  shows "timer_inv (cancel_reconnect_timeout w)"
  using assms by (simp add: timer_inv_idle cancel_clears)

lemma scheduleReconnect_max:
  assumes "maxReconnectAttempts \<le> reconnectAttempts w"
  shows "scheduleReconnect w =
           console_say Error ''[WS] Max reconnect attempts reached. Giving up.'' w"
  using assms by (simp add: scheduleReconnect_def)

lemma scheduleReconnect_pending:
  assumes "reconnectAttempts w < maxReconnectAttempts" "truthy (reconnectTimeoutId w)"
  shows "scheduleReconnect w = w"
  using assms by (simp add: scheduleReconnect_def)

lemma scheduleReconnect_new:
  assumes "reconnectAttempts w < maxReconnectAttempts" "\<not> truthy (reconnectTimeoutId w)"
  shows "scheduleReconnect w =
           (console_say Log ''[WS] Scheduling reconnect attempt'' w)
             \<lparr>reconnectAttempts := Suc (reconnectAttempts w),
               timers := timers w @ [(Suc (timersCreated w), backoff_delay (Suc (reconnectAttempts w)))],
               timersCreated := Suc (timersCreated w),
               reconnectTimeoutId := Some (Suc (timersCreated w))\<rparr>"
  using assms by (simp add: scheduleReconnect_def Let_def setTimeout_def console_say_def)

lemma scheduleReconnect_cases:
  obtains (max) "maxReconnectAttempts \<le> reconnectAttempts w"
  | (pending) "reconnectAttempts w < maxReconnectAttempts" "truthy (reconnectTimeoutId w)"
  | (new) "reconnectAttempts w < maxReconnectAttempts" "\<not> truthy (reconnectTimeoutId w)"
  by (cases "maxReconnectAttempts \<le> reconnectAttempts w"; cases "truthy (reconnectTimeoutId w)")
    auto

lemma timer_inv_scheduleReconnect:
  assumes "timer_inv w"
  shows "timer_inv (scheduleReconnect w)"
proof (rule scheduleReconnect_cases [where w = w])
  assume "maxReconnectAttempts \<le> reconnectAttempts w"
  with assms show ?thesis by (simp add: scheduleReconnect_max)
next
  assume "reconnectAttempts w < maxReconnectAttempts" "truthy (reconnectTimeoutId w)"
  with assms show ?thesis by (simp add: scheduleReconnect_pending)
next
  assume h: "reconnectAttempts w < maxReconnectAttempts" "\<not> truthy (reconnectTimeoutId w)"
  with assms have "timers w = []"
    by (auto simp add: timer_inv_alt truthy_def)
  with h show ?thesis by (simp add: scheduleReconnect_new timer_inv_alt)
qed

lemma timer_inv_onclose:
  assumes "timer_inv w"
  shows "timer_inv (onclose code w)"
proof -
  let ?v = "emit ''disconnected'' NoArg ((console_say Warn ''[WS] Connection closed.'' w)\<lparr>ws := None\<rparr>)"
  let ?u = "case rejectConnectionPromise ?v of
              None \<Rightarrow> ?v
            | Some p \<Rightarrow> (reject p (ClosedWithCode code) ?v)
                \<lparr>resolveConnectionPromise := None, rejectConnectionPromise := None\<rparr>"
  have "timer_inv ?u = timer_inv w"
    by (rule timer_inv_cong) (simp_all split: option.splits)
  with assms have "timer_inv ?u" by simp
  then have "timer_inv (scheduleReconnect ?u)" by (rule timer_inv_scheduleReconnect)
  with \<open>timer_inv ?u\<close> show ?thesis by (simp add: onclose_def Let_def)
qed

lemma timer_inv_connect:
  assumes "timer_inv w"
  shows "timer_inv (snd (connect w))"
proof -
  note c = cancel_clears [OF assms]
  consider (a) p where "connected_or_connecting w" "connectionPromise w = Some p"
    | (b) "connected_or_connecting w" "connectionPromise w = None"
    | (c) "\<not> connected_or_connecting w" "\<not> ctorThrows w"
    | (d) "\<not> connected_or_connecting w" "ctorThrows w"
    by (cases "connectionPromise w") auto
  then show ?thesis
  proof cases
    case a then show ?thesis by (simp add: connect_already timer_inv_idle c)
  next
    case b then show ?thesis
      by (simp add: connect_already_no_promise Promise_resolve_def timer_inv_idle c)
  next
    case c then show ?thesis
      using cancel_clears [OF assms] by (simp add: connect_attempt timer_inv_idle)
  next
    case d
    have "timer_inv (scheduleReconnect
              (emit ''disconnected'' NoArg
                 (console_say Error ''[WS] Connection failed immediately:''
                   ((console_say Log ''[WS] Attempting to connect...'' (cancel_reconnect_timeout w))
                     \<lparr>promiseOf := (promiseOf w)(promisesCreated w := Pending),
                       promisesCreated := Suc (promisesCreated w),
                       connectionPromise := Some (promisesCreated w),
                       resolveConnectionPromise := Some (promisesCreated w),
                       rejectConnectionPromise := Some (promisesCreated w)\<rparr>))
              \<lparr>promiseOf := (promiseOf w)(promisesCreated w := Rejected ConstructorError)\<rparr>))"
      using cancel_clears [OF assms]
      by (intro timer_inv_scheduleReconnect) (simp add: timer_inv_idle)
    with d show ?thesis by (simp add: connect_throws)
  qed
qed

lemma timer_inv_disconnect:
  assumes "timer_inv w"
  shows "timer_inv (snd (disconnect r w))"
  using cancel_clears [OF assms] by (simp add: timer_inv_idle)

lemma timer_inv_timeout_callback:
  assumes "timer_inv w" "t \<in> fst ` set (timers w)"
  shows "timer_inv (timeout_callback (clearTimeout t w))"
proof -
  from assms have "map fst (timers w) = [t]"
    by (cases "timers w") (auto simp add: timer_inv_alt)
  then have "timer_inv (clearTimeout t w\<lparr>reconnectTimeoutId := None\<rparr>)"
    by (simp add: timer_inv_idle filter_only_timer)
  then show ?thesis unfolding timeout_callback_def by (rule timer_inv_connect)
qed

lemma timer_inv_sendCommand:
  assumes "timer_inv w"
  shows "timer_inv (sendCommand P c pl w)"
proof (cases "isConnected w")
  case True
  with assms show ?thesis by (simp add: sendCommand_connected)
next
  case False
  show ?thesis
  proof (cases "should_trigger_connect w")
    case True
    have "timer_inv (snd (connect (console_say Log
            ''[WS] Triggering connection attempt before sending...''
            (console_say Log ''[WS] Connection not established. Waiting...'' w))))"
      using assms by (intro timer_inv_connect) simp
    with False True show ?thesis by (simp add: sendCommand_connects)
  next
    case no: False
    with False assms show ?thesis by (simp add: sendCommand_waits)
  qed
qed

lemma timer_inv_handle:
  assumes "timer_inv w"
  shows "timer_inv (handle P e w)"
  using assms
  by (cases e)
    (simp_all add: timer_inv_connect timer_inv_disconnect timer_inv_sendCommand
      timer_inv_onclose timer_inv_timeout_callback)

lemma timer_inv_run:
  assumes "timer_inv w"
  shows "timer_inv (run P evs w)"
  using assms by (induction evs arbitrary: w) (simp_all add: step_def timer_inv_handle)

lemma timer_inv_reachable: "timer_inv (run P evs (initial_world c))"
  by (simp add: timer_inv_run timer_inv_initial)

subsection \<open>A socket keeps the promise of its attempt\<close>

lemma attempt_inv_cong:
  assumes "ws w' = ws w" "connectionPromise w' = connectionPromise w"
    "socketsCreated w' = socketsCreated w" "ctorThrows w' = ctorThrows w"
  shows "attempt_inv s p w' = attempt_inv s p w"
  by (simp add: attempt_inv_def assms)

lemma attempt_inv_dropped:
  assumes "attempt_inv s p w" "ws w' = None" "socketsCreated w' = socketsCreated w"
    "ctorThrows w' = ctorThrows w"
  shows "attempt_inv s p w'"
  using assms by (simp add: attempt_inv_def)

lemma attempt_inv_connect:
  assumes "attempt_inv s p w"
  shows "attempt_inv s p (snd (connect w))"
proof -
  from assms have nt: "\<not> ctorThrows w" by (simp add: attempt_inv_def)
  consider (a) q where "connected_or_connecting w" "connectionPromise w = Some q"
    | (b) "connected_or_connecting w" "connectionPromise w = None"
    | (c) "\<not> connected_or_connecting w"
    by (cases "connectionPromise w") auto
  then show ?thesis
  proof cases
    case a
    with assms show ?thesis by (simp add: connect_already attempt_inv_def)
  next
    case b
    with assms show ?thesis
      by (simp add: connect_already_no_promise Promise_resolve_def attempt_inv_def)
  next
    case c
    with assms nt show ?thesis by (auto simp add: connect_attempt attempt_inv_def)
  qed
qed

lemma attempt_inv_sendCommand:
  assumes "attempt_inv s p w"
  shows "attempt_inv s p (sendCommand P c pl w)"
proof (cases "isConnected w")
  case True
  have "attempt_inv s p (send_if_connected P c pl w) = attempt_inv s p w"
    by (rule attempt_inv_cong) simp_all
  with True assms show ?thesis by (simp add: sendCommand_connected)
next
  case False
  show ?thesis
  proof (cases "should_trigger_connect w")
    case True
    let ?v = "console_say Log ''[WS] Triggering connection attempt before sending...''
            (console_say Log ''[WS] Connection not established. Waiting...'' w)"
    have "attempt_inv s p ?v = attempt_inv s p w"
      by (rule attempt_inv_cong) simp_all
    with assms have "attempt_inv s p (snd (connect ?v))"
      by (intro attempt_inv_connect) simp
    then have "attempt_inv s p ((snd (connect ?v))\<lparr>suspended := suspended w @
                 [(connectionPromise (snd (connect ?v)), c, pl)]\<rparr>)"
      by (simp add: attempt_inv_def)
    with False True show ?thesis by (simp add: sendCommand_connects)
  next
    case no: False
    with False assms show ?thesis by (simp add: sendCommand_waits attempt_inv_def)
  qed
qed

lemma attempt_inv_disconnect:
  assumes "attempt_inv s p w"
  shows "attempt_inv s p (snd (disconnect r w))"
proof (rule disconnect_cases [where w = w and r = r])
  assume "ws w = None"
  with assms show ?thesis by (simp add: disconnect_no_socket attempt_inv_def)
next
  fix t assume "ws w = Some t" "length r \<le> 123"
  with assms show ?thesis by (simp add: disconnect_socket attempt_inv_def)
next
  fix t assume "ws w = Some t" "123 < length r"
  with assms show ?thesis by (simp add: disconnect_throws attempt_inv_def)
qed

lemma attempt_inv_handle:
  assumes "attempt_inv s p w"
  shows "attempt_inv s p (handle P e w)"
proof (cases e)
  case CallConnect
  with assms show ?thesis by (simp add: attempt_inv_connect)
next
  case (CallDisconnect r)
  with assms show ?thesis by (simp add: attempt_inv_disconnect)
next
  case (CallSendCommand c pl)
  with assms show ?thesis by (simp add: attempt_inv_sendCommand)
next
  case (CallOn ev f c)
  with assms show ?thesis by (simp add: attempt_inv_def)
next
  case (SocketOpen t)
  with assms show ?thesis by (simp add: attempt_inv_def)
next
  case (SocketMessage t d)
  with assms show ?thesis by (simp add: attempt_inv_def)
next
  case (SocketClosing t)
  with assms show ?thesis by (simp add: attempt_inv_def)
next
  case (SocketFail t code)
  with assms show ?thesis by (simp add: attempt_inv_def)
next
  case (SocketClose t code)
  with assms show ?thesis by (simp add: attempt_inv_def)
next
  case (TimerFire t)
  have "attempt_inv s p (clearTimeout t w\<lparr>reconnectTimeoutId := None\<rparr>)"
    using assms by (simp add: attempt_inv_def)
  then have "attempt_inv s p (timeout_callback (clearTimeout t w))"
    unfolding timeout_callback_def by (rule attempt_inv_connect)
  with assms TimerFire show ?thesis by simp
qed

lemma attempt_inv_run:
  assumes "attempt_inv s p w"
  shows "attempt_inv s p (run P evs w)"
  using assms
proof (induction evs arbitrary: w)
  case Nil
  then show ?case by simp
next
  case (Cons e evs)
  from Cons.prems have "attempt_inv s p (handle P e w)" by (rule attempt_inv_handle)
  then have "attempt_inv s p (step P e w)" by (simp add: step_def attempt_inv_def)
  then show ?case by (simp add: Cons.IH)
qed

lemma reachable_never_throws:
  "ctorThrows (run P evs w) = ctorThrows w"
proof (induction evs arbitrary: w)
  case Nil
  show ?case by simp
next
  case (Cons e evs)
  have "ctorThrows (handle P e w) = ctorThrows w"
  proof (cases e)
    case (CallSendCommand c pl)
    show ?thesis
      by (cases "isConnected w"; cases "should_trigger_connect w")
        (simp_all add: CallSendCommand sendCommand_connected sendCommand_waits
          sendCommand_connects)
  qed (simp_all add: timeout_callback_def)
  then show ?case by (simp add: Cons.IH step_def)
qed

subsection \<open>connect while open or connecting\<close>

lemma connected_or_connecting_iff:
  "connected_or_connecting w \<longleftrightarrow>
     (\<exists>s. ws w = Some s \<and> (readyStateOf w s = OPEN \<or> readyStateOf w s = CONNECTING))"
  by (simp add: connected_or_connecting_def split: option.splits)

lemma connect_noop:
  assumes "gate_inv w" "ws w = Some s"
    "readyStateOf w s = OPEN \<or> readyStateOf w s = CONNECTING"
  shows "\<exists>p. connectionPromise w = Some p \<and>
           connect w = (p, console_say Log ''[WS] Already connected or connecting.'' w)"
proof -
  from assms have cc: "connected_or_connecting w"
    by (auto simp add: connected_or_connecting_iff)
  from assms obtain p where p: "connectionPromise w = Some p"
    by (auto simp add: gate_inv_alt)
  from assms have "cancel_reconnect_timeout w = w"
    by (simp add: cancel_reconnect_timeout_id gate_inv_timeout_None)
  with cc p show ?thesis by (simp add: connect_already)
qed

text \<open>
  What holds of \<open>connect\<close> while the handle names a socket, in every state the
  event loop can reach: while the service holds an open
  socket, \<open>connect\<close> returns the current promise, which is fulfilled, and changes
  nothing but the console (so no socket is created); while it holds a connecting
  socket, \<open>connect\<close> returns the current promise and changes nothing but the
  console. A call of \<open>connect\<close> that starts an attempt returns a pending promise,
  and every later call made while the service still holds the socket of that
  attempt, connecting or open, returns that same promise. In both states a second
  call returns what the first returned and again changes nothing but the console.
\<close>

lemma connect_with_socket_held:
  assumes "w = run P evs (initial_world c)"
  shows "(\<forall>s. ws w = Some s \<and> readyStateOf w s = OPEN \<longrightarrow>
            (\<exists>p. connectionPromise w = Some p \<and> promiseOf w p = Fulfilled \<and>
                 connect w = (p, console_say Log ''[WS] Already connected or connecting.'' w)))
       \<and> (\<forall>s. ws w = Some s \<and> readyStateOf w s = CONNECTING \<longrightarrow>
            (\<exists>p. connectionPromise w = Some p \<and>
                 connect w = (p, console_say Log ''[WS] Already connected or connecting.'' w)))
       \<and> (\<not> connected_or_connecting w \<and> \<not> ctorThrows w \<longrightarrow>
            promiseOf (snd (connect w)) (fst (connect w)) = Pending \<and>
            ws (snd (connect w)) = Some (socketsCreated w) \<and>
            (\<forall>evs'. ws (run P (CallConnect # evs') w) = Some (socketsCreated w) \<and>
                    connected_or_connecting (run P (CallConnect # evs') w) \<longrightarrow>
                    fst (connect (run P (CallConnect # evs') w)) = fst (connect w) \<and>
                    socketsCreated (snd (connect (run P (CallConnect # evs') w))) =
                      socketsCreated (run P (CallConnect # evs') w)))
       \<and> (\<forall>s. ws w = Some s \<and> (readyStateOf w s = OPEN \<or> readyStateOf w s = CONNECTING) \<longrightarrow>
            connect (snd (connect w)) =
              (fst (connect w),
               console_say Log ''[WS] Already connected or connecting.'' (snd (connect w))))"
proof (intro conjI allI impI)
  from assms have inv: "gate_inv w" by (simp add: gate_inv_reachable)
  {
    fix s assume h: "ws w = Some s \<and> (readyStateOf w s = OPEN \<or> readyStateOf w s = CONNECTING)"
    let ?v = "console_say Log ''[WS] Already connected or connecting.'' w"
    from inv h obtain p where p: "connectionPromise w = Some p" "connect w = (p, ?v)"
      using connect_noop [of w s] by auto
    have "gate_inv ?v" using inv by simp
    moreover have "ws ?v = Some s" "readyStateOf ?v s = OPEN \<or> readyStateOf ?v s = CONNECTING"
      using h by simp_all
    ultimately obtain q where "connectionPromise ?v = Some q"
      "connect ?v = (q, console_say Log ''[WS] Already connected or connecting.'' ?v)"
      using connect_noop [of ?v s] by auto
    with p show "connect (snd (connect w)) =
              (fst (connect w),
               console_say Log ''[WS] Already connected or connecting.'' (snd (connect w)))"
      by simp
  }
  {
    fix s assume h: "ws w = Some s \<and> readyStateOf w s = OPEN"
    with inv obtain p where p: "connectionPromise w = Some p"
      "connect w = (p, console_say Log ''[WS] Already connected or connecting.'' w)"
      using connect_noop [of w s] by auto
    from inv h p have "promiseOf w p = Fulfilled" by (auto simp add: gate_inv_alt)
    with p show "\<exists>p. connectionPromise w = Some p \<and> promiseOf w p = Fulfilled \<and>
                 connect w = (p, console_say Log ''[WS] Already connected or connecting.'' w)"
      by blast
  }
  {
    fix s assume h: "ws w = Some s \<and> readyStateOf w s = CONNECTING"
    with inv show "\<exists>p. connectionPromise w = Some p \<and>
                 connect w = (p, console_say Log ''[WS] Already connected or connecting.'' w)"
      using connect_noop [of w s] by auto
  }
  {
    assume h: "\<not> connected_or_connecting w \<and> \<not> ctorThrows w"
    then show "promiseOf (snd (connect w)) (fst (connect w)) = Pending"
      and "ws (snd (connect w)) = Some (socketsCreated w)"
      by (simp_all add: connect_attempt)
    fix evs'
    let ?w' = "run P (CallConnect # evs') w"
    assume held: "ws ?w' = Some (socketsCreated w) \<and> connected_or_connecting ?w'"
    from h have "attempt_inv (socketsCreated w) (fst (connect w)) (snd (connect w))"
      by (simp add: connect_attempt attempt_inv_def)
    then have "attempt_inv (socketsCreated w) (fst (connect w)) (step P CallConnect w)"
      by (simp add: step_def attempt_inv_def)
    then have "attempt_inv (socketsCreated w) (fst (connect w)) ?w'"
      by (simp add: attempt_inv_run)
    with held have cp: "connectionPromise ?w' = Some (fst (connect w))"
      by (simp add: attempt_inv_def)
    with held show "fst (connect ?w') = fst (connect w)"
      and "socketsCreated (snd (connect ?w')) = socketsCreated ?w'"
      by (simp_all add: connect_already)
  }
qed

lemmas eval_defs = step_def run_microtasks_def can_continue_def
  sendCommand_resume_def gate_rejected_def sendCommand_def should_trigger_connect_def
  send_if_connected_def send_failed_def error_message_def ws_send_def
  disconnect_def ws_close_def timeout_callback_def
  connect_def connected_or_connecting_def cancel_reconnect_timeout_def setupEventListeners_def
  onopen_def onmessage_def onerror_def onclose_def scheduleReconnect_def
  backoff_delay_def Math_pow_1_5_def reconnectDelay_def maxReconnectAttempts_def
  isConnected_def subscribers_def truthy_def browser_defs Let_def initial_world_def
  sample_platform_def

lemma connect_with_socket_held_example:
  "ws (run sample_platform [CallConnect, SocketOpen 0] (initial_world False)) = Some 0
   \<and> readyStateOf (run sample_platform [CallConnect, SocketOpen 0] (initial_world False)) 0 = OPEN
   \<and> promiseOf (run sample_platform [CallConnect, SocketOpen 0] (initial_world False))
        (fst (connect (run sample_platform [CallConnect, SocketOpen 0] (initial_world False))))
        = Fulfilled
   \<and> ws (run sample_platform [CallConnect] (initial_world False)) = Some 0
   \<and> readyStateOf (run sample_platform [CallConnect] (initial_world False)) 0 = CONNECTING
   \<and> connectionPromise (run sample_platform [CallConnect] (initial_world False)) =
        Some (fst (connect (run sample_platform [CallConnect] (initial_world False))))
   \<and> \<not> connected_or_connecting (initial_world False) \<and> \<not> ctorThrows (initial_world False)
   \<and> connected_or_connecting (run sample_platform [CallConnect, SocketOpen 0] (initial_world False))
   \<and> fst (connect (run sample_platform [CallConnect, SocketOpen 0] (initial_world False))) =
        fst (connect (initial_world False))"
proof -
  let ?o = "run sample_platform [CallConnect, SocketOpen 0] (initial_world False)"
  let ?c = "run sample_platform [CallConnect] (initial_world False)"
  have o: "ws ?o = Some 0" "readyStateOf ?o 0 = OPEN" "connected_or_connecting ?o"
    by (simp_all add: eval_defs)
  have c: "ws ?c = Some 0" "readyStateOf ?c 0 = CONNECTING"
    by (simp_all add: eval_defs)
  have i: "\<not> connected_or_connecting (initial_world False)" "\<not> ctorThrows (initial_world False)"
    "socketsCreated (initial_world False) = 0"
    by (simp_all add: initial_world_def connected_or_connecting_def)
  from connect_with_socket_held [of ?o sample_platform "[CallConnect, SocketOpen 0]" False] o
  have 1: "promiseOf ?o (fst (connect ?o)) = Fulfilled" by auto
  from connect_with_socket_held [of ?c sample_platform "[CallConnect]" False] c
  have 2: "connectionPromise ?c = Some (fst (connect ?c))" by auto
  from connect_with_socket_held [of "initial_world False" sample_platform "[]" False] i
  have "ws (run sample_platform (CallConnect # [SocketOpen 0]) (initial_world False)) = Some 0 \<and>
        connected_or_connecting (run sample_platform (CallConnect # [SocketOpen 0]) (initial_world False)) \<longrightarrow>
        fst (connect (run sample_platform (CallConnect # [SocketOpen 0]) (initial_world False))) =
          fst (connect (initial_world False))"
    by (simp del: run_Cons)
  with o have 3: "fst (connect ?o) = fst (connect (initial_world False))" by blast
  from o c i 1 2 3 show ?thesis by blast
qed

text \<open>
  C2. The claim asks of \<open>connect\<close>, called while an attempt is in flight, that it
  returns the pending promise of that attempt and creates no second socket; the
  test of line 38 is there for this. But the handlers of lines 69 to 119 write the
  fields of the service without asking whether the socket whose event runs them is
  the socket the service holds. A run of the code: the application connects, the
  socket opens, the application disconnects and connects again at once, which
  creates socket 1 and returns promise 1. Then the close of the first socket
  arrives: line 107 clears the handle, which named socket 1, and line 111 rejects
  promise 1. Socket 1 is still connecting, yet the test of line 38 finds no
  socket: \<open>connect\<close> returns a new promise, 2, and creates a third socket, so that
  two sockets are connecting at once. If socket 1 then opens, line 74 fulfils
  promise 2, whose own socket is still connecting: while the service is
  connecting, \<open>connect\<close> returns a promise that is no longer pending.
\<close>

theorem connect_while_connecting_creates_duplicate:
  "fst (connect (run sample_platform [CallConnect, SocketOpen 0, CallDisconnect ''bye'']
        (initial_world False))) = 1
   \<and> ws (run sample_platform quick_reconnect (initial_world False)) = None
   \<and> readyStateOf (run sample_platform quick_reconnect (initial_world False)) 1 = CONNECTING
   \<and> promiseOf (run sample_platform quick_reconnect (initial_world False)) 1 =
        Rejected (ClosedWithCode 1000)
   \<and> socketsCreated (run sample_platform quick_reconnect (initial_world False)) = 2
   \<and> fst (connect (run sample_platform quick_reconnect (initial_world False))) = 2
   \<and> socketsCreated (snd (connect (run sample_platform quick_reconnect (initial_world False))))
        = 3
   \<and> readyStateOf (snd (connect (run sample_platform quick_reconnect (initial_world False)))) 1
        = CONNECTING
   \<and> readyStateOf (snd (connect (run sample_platform quick_reconnect (initial_world False)))) 2
        = CONNECTING
   \<and> ws (run sample_platform (quick_reconnect @ [CallConnect, SocketOpen 1])
        (initial_world False)) = Some 2
   \<and> readyStateOf (run sample_platform (quick_reconnect @ [CallConnect, SocketOpen 1])
        (initial_world False)) 2 = CONNECTING
   \<and> promiseOf (run sample_platform (quick_reconnect @ [CallConnect, SocketOpen 1])
        (initial_world False)) 2 = Fulfilled
   \<and> fst (connect (run sample_platform (quick_reconnect @ [CallConnect, SocketOpen 1])
        (initial_world False))) = 2"
proof -
  define first where "first w \<longleftrightarrow> fst (connect w) = 1" for w
  define orphan where "orphan w \<longleftrightarrow>
     ws w = None \<and> readyStateOf w 1 = CONNECTING
     \<and> promiseOf w 1 = Rejected (ClosedWithCode 1000)
     \<and> socketsCreated w = 2 \<and> fst (connect w) = 2
     \<and> socketsCreated (snd (connect w)) = 3
     \<and> readyStateOf (snd (connect w)) 1 = CONNECTING
     \<and> readyStateOf (snd (connect w)) 2 = CONNECTING" for w
  define early where "early w \<longleftrightarrow>
     ws w = Some 2 \<and> readyStateOf w 2 = CONNECTING \<and> promiseOf w 2 = Fulfilled
     \<and> fst (connect w) = 2" for w
  have 0: "first (run sample_platform [CallConnect, SocketOpen 0, CallDisconnect ''bye'']
        (initial_world False))"
    by (simp add: eval_defs first_def)
  have 1: "orphan (run sample_platform quick_reconnect (initial_world False))"
    by (simp add: quick_reconnect_def eval_defs orphan_def)
  have 2: "early (run sample_platform (quick_reconnect @ [CallConnect, SocketOpen 1])
        (initial_world False))"
    by (simp add: quick_reconnect_def eval_defs early_def)
  from 0 1 2 show ?thesis unfolding first_def orphan_def early_def by blast
qed

subsection \<open>The open handler\<close>

lemma onopen_emitted:
  "emitted (onopen w) =
     emitted w @
       [\<lparr> e_name = ''connected'', e_arg = NoArg,
           e_delivered = subscribers ''connected'' w,
           e_ws = ws w, e_connected = isConnected w \<rparr>]"
  by (simp add: onopen_def Let_def emit_def console_say_def resolve_def subscribers_def
      isConnected_def split: option.splits)

lemma handle_open_held:
  assumes "gate_inv w" "ws w = Some s" "readyStateOf w s = CONNECTING"
  shows "handle P (SocketOpen s) w = onopen (set_readyState s OPEN w)"
  using assms by (simp add: gate_inv_alt)

text \<open>
  What holds of the open handler. Every run of it sets the Reconnect Counter to 0, emits
  \<open>connected\<close> once, to the subscribers of \<open>connected\<close> in registration order, and
  fulfils the promise whose resolver the service holds, if it is pending. In every
  state the event loop can reach in which the service holds a connecting socket
  (the state Connecting), the opening of that socket runs the handler: afterwards
  the counter is 0, the service is connected, the current promise is fulfilled,
  and the subscribers of \<open>connected\<close> have seen the service connected.
\<close>

lemma open_of_held_socket:
  "reconnectAttempts (onopen v) = 0
   \<and> emitted (onopen v) =
       emitted v @
         [\<lparr> e_name = ''connected'', e_arg = NoArg,
             e_delivered = subscribers ''connected'' v,
             e_ws = ws v, e_connected = isConnected v \<rparr>]
   \<and> (resolveConnectionPromise v = Some q \<and> promiseOf v q = Pending \<longrightarrow>
        promiseOf (onopen v) q = Fulfilled)
   \<and> (w = run P evs (initial_world c) \<and> ws w = Some s \<and> readyStateOf w s = CONNECTING \<longrightarrow>
        handle P (SocketOpen s) w = onopen (set_readyState s OPEN w)
      \<and> reconnectAttempts (handle P (SocketOpen s) w) = 0
      \<and> isConnected (handle P (SocketOpen s) w)
      \<and> (\<exists>p. connectionPromise w = Some p
             \<and> connectionPromise (handle P (SocketOpen s) w) = Some p
             \<and> promiseOf (handle P (SocketOpen s) w) p = Fulfilled)
      \<and> emitted (handle P (SocketOpen s) w) =
          emitted w @
            [\<lparr> e_name = ''connected'', e_arg = NoArg,
                e_delivered = subscribers ''connected'' w,
                e_ws = Some s, e_connected = True \<rparr>]
      \<and> reconnectAttempts (step P (SocketOpen s) w) = 0
      \<and> (\<exists>p. connectionPromise (step P (SocketOpen s) w) = Some p
             \<and> promiseOf (step P (SocketOpen s) w) p = Fulfilled))"
proof -
  have a: "reconnectAttempts (onopen v) = 0" by simp
  have b: "emitted (onopen v) =
       emitted v @
         [\<lparr> e_name = ''connected'', e_arg = NoArg,
             e_delivered = subscribers ''connected'' v,
             e_ws = ws v, e_connected = isConnected v \<rparr>]"
    by (rule onopen_emitted)
  have c: "resolveConnectionPromise v = Some q \<and> promiseOf v q = Pending \<longrightarrow>
        promiseOf (onopen v) q = Fulfilled"
    by (simp add: onopen_resolves)
  have d: "w = run P evs (initial_world c) \<and> ws w = Some s \<and> readyStateOf w s = CONNECTING \<longrightarrow>
        handle P (SocketOpen s) w = onopen (set_readyState s OPEN w)
      \<and> reconnectAttempts (handle P (SocketOpen s) w) = 0
      \<and> isConnected (handle P (SocketOpen s) w)
      \<and> (\<exists>p. connectionPromise w = Some p
             \<and> connectionPromise (handle P (SocketOpen s) w) = Some p
             \<and> promiseOf (handle P (SocketOpen s) w) p = Fulfilled)
      \<and> emitted (handle P (SocketOpen s) w) =
          emitted w @
            [\<lparr> e_name = ''connected'', e_arg = NoArg,
                e_delivered = subscribers ''connected'' w,
                e_ws = Some s, e_connected = True \<rparr>]
      \<and> reconnectAttempts (step P (SocketOpen s) w) = 0
      \<and> (\<exists>p. connectionPromise (step P (SocketOpen s) w) = Some p
             \<and> promiseOf (step P (SocketOpen s) w) p = Fulfilled)"
  proof (intro impI, elim conjE)
    assume reach: "w = run P evs (initial_world c)"
      and held: "ws w = Some s" "readyStateOf w s = CONNECTING"
    from reach have inv: "gate_inv w" by (simp add: gate_inv_reachable)
    let ?v = "set_readyState s OPEN w"
    from inv held have h: "handle P (SocketOpen s) w = onopen ?v"
      by (rule handle_open_held)
    from inv held obtain p where p: "connectionPromise w = Some p"
      "promiseOf w p = Fulfilled \<or> (promiseOf w p = Pending \<and> resolveConnectionPromise w = Some p)"
      by (auto simp add: gate_inv_alt)
    have f: "promiseOf (onopen ?v) p = Fulfilled"
      using p(2) onopen_keeps_Fulfilled [of ?v p] onopen_resolves [of ?v p] by auto
    have conn: "isConnected ?v" "ws ?v = Some s"
      using held by (simp_all add: isConnected_def)
    have sub: "subscribers ''connected'' ?v = subscribers ''connected'' w"
      by (simp add: subscribers_def)
    have 1: "reconnectAttempts (handle P (SocketOpen s) w) = 0"
      unfolding h by simp
    have 2: "isConnected (handle P (SocketOpen s) w)"
      unfolding h using held by (simp add: isConnected_def)
    have 3: "\<exists>p. connectionPromise w = Some p
              \<and> connectionPromise (handle P (SocketOpen s) w) = Some p
              \<and> promiseOf (handle P (SocketOpen s) w) p = Fulfilled"
      unfolding h using p f by simp
    have 4: "emitted (handle P (SocketOpen s) w) =
           emitted w @
             [\<lparr> e_name = ''connected'', e_arg = NoArg,
                 e_delivered = subscribers ''connected'' w,
                 e_ws = Some s, e_connected = True \<rparr>]"
      unfolding h using conn sub by (simp add: onopen_emitted)
    have 5: "reconnectAttempts (step P (SocketOpen s) w) = 0"
      using 1 by (simp add: step_def)
    have 6: "\<exists>p. connectionPromise (step P (SocketOpen s) w) = Some p
              \<and> promiseOf (step P (SocketOpen s) w) p = Fulfilled"
      using 3 by (auto simp add: step_def)
    from h 1 2 3 4 5 6 show "handle P (SocketOpen s) w = onopen (set_readyState s OPEN w)
      \<and> reconnectAttempts (handle P (SocketOpen s) w) = 0
      \<and> isConnected (handle P (SocketOpen s) w)
      \<and> (\<exists>p. connectionPromise w = Some p
             \<and> connectionPromise (handle P (SocketOpen s) w) = Some p
             \<and> promiseOf (handle P (SocketOpen s) w) p = Fulfilled)
      \<and> emitted (handle P (SocketOpen s) w) =
          emitted w @
            [\<lparr> e_name = ''connected'', e_arg = NoArg,
                e_delivered = subscribers ''connected'' w,
                e_ws = Some s, e_connected = True \<rparr>]
      \<and> reconnectAttempts (step P (SocketOpen s) w) = 0
      \<and> (\<exists>p. connectionPromise (step P (SocketOpen s) w) = Some p
             \<and> promiseOf (step P (SocketOpen s) w) p = Fulfilled)"
      by (intro conjI)
  qed
  show ?thesis by (rule conjI [OF a conjI [OF b conjI [OF c d]]])
qed

lemma open_of_held_socket_example:
  "ws (run sample_platform [CallConnect] (initial_world False)) = Some 0
   \<and> readyStateOf (run sample_platform [CallConnect] (initial_world False)) 0 = CONNECTING
   \<and> resolveConnectionPromise (run sample_platform [CallConnect] (initial_world False)) = Some 0
   \<and> promiseOf (run sample_platform [CallConnect] (initial_world False)) 0 = Pending
   \<and> promiseOf (onopen (run sample_platform [CallConnect] (initial_world False))) 0 = Fulfilled
   \<and> reconnectAttempts
        (handle sample_platform (SocketOpen 0)
           (run sample_platform [CallConnect] (initial_world False))) = 0
   \<and> isConnected
        (handle sample_platform (SocketOpen 0)
           (run sample_platform [CallConnect] (initial_world False)))
   \<and> map e_name (emitted
        (handle sample_platform (SocketOpen 0)
           (run sample_platform [CallConnect] (initial_world False)))) = [''connected'']"
proof -
  let ?c = "run sample_platform [CallConnect] (initial_world False)"
  have c: "ws ?c = Some 0" "readyStateOf ?c 0 = CONNECTING"
    "resolveConnectionPromise ?c = Some 0" "promiseOf ?c 0 = Pending"
    by (simp_all add: eval_defs)
  have e: "emitted ?c = []"
    by (simp add: eval_defs)
  note t = open_of_held_socket
    [of ?c 0 ?c sample_platform "[CallConnect]" False 0]
  from t c have 0: "promiseOf (onopen ?c) 0 = Fulfilled" by blast
  from t c have 1: "reconnectAttempts (handle sample_platform (SocketOpen 0) ?c) = 0" by blast
  from t c have 2: "isConnected (handle sample_platform (SocketOpen 0) ?c)" by blast
  from t c have "emitted (handle sample_platform (SocketOpen 0) ?c) =
           emitted ?c @
             [\<lparr> e_name = ''connected'', e_arg = NoArg,
                 e_delivered = subscribers ''connected'' ?c,
                 e_ws = Some 0, e_connected = True \<rparr>]" by blast
  with e have 3: "map e_name (emitted (handle sample_platform (SocketOpen 0) ?c)) = [''connected'']"
    by simp
  from c 0 1 2 3 show ?thesis by blast
qed

text \<open>
  C9. The claim asks of every successful open of a socket that the Reconnect
  Counter is reset, the current promise is resolved as success, and \<open>connected\<close>
  is emitted. The comment of line 109 has the close handler reject the promise
  only if the initial connection failed, but the handler does not ask which
  socket closed. A run of the code: the application connects, the socket opens,
  the application disconnects and connects again at once (socket 1, promise 1);
  the close of the first socket then clears the handle, rejects promise 1 and
  clears its resolver (lines 107 to 113). When socket 1 opens, the counter is set
  to 0 and \<open>connected\<close> is emitted, but line 73 finds no resolver: the current
  promise stays rejected, and what the subscribers of \<open>connected\<close> see is no
  socket and \<^verbatim>\<open>isConnected()\<close> false.
\<close>

theorem orphan_open_leaves_gate_rejected:
  "ws (run sample_platform quick_reconnect (initial_world False)) = None
   \<and> readyStateOf (run sample_platform quick_reconnect (initial_world False)) 1 = CONNECTING
   \<and> connectionPromise (run sample_platform quick_reconnect (initial_world False)) = Some 1
   \<and> readyStateOf (step sample_platform (SocketOpen 1)
        (run sample_platform quick_reconnect (initial_world False))) 1 = OPEN
   \<and> reconnectAttempts (step sample_platform (SocketOpen 1)
        (run sample_platform quick_reconnect (initial_world False))) = 0
   \<and> drop 3 (emitted (step sample_platform (SocketOpen 1)
        (run sample_platform quick_reconnect (initial_world False)))) =
       [\<lparr> e_name = ''connected'', e_arg = NoArg, e_delivered = [],
           e_ws = None, e_connected = False \<rparr>]
   \<and> connectionPromise (step sample_platform (SocketOpen 1)
        (run sample_platform quick_reconnect (initial_world False))) = Some 1
   \<and> promiseOf (step sample_platform (SocketOpen 1)
        (run sample_platform quick_reconnect (initial_world False))) 1 =
        Rejected (ClosedWithCode 1000)
   \<and> \<not> isConnected (step sample_platform (SocketOpen 1)
        (run sample_platform quick_reconnect (initial_world False)))"
proof -
  define orphan where "orphan w \<longleftrightarrow>
     ws w = None \<and> readyStateOf w 1 = CONNECTING \<and> connectionPromise w = Some 1
     \<and> readyStateOf (step sample_platform (SocketOpen 1) w) 1 = OPEN
     \<and> reconnectAttempts (step sample_platform (SocketOpen 1) w) = 0
     \<and> drop 3 (emitted (step sample_platform (SocketOpen 1) w)) =
         [\<lparr> e_name = ''connected'', e_arg = NoArg, e_delivered = [],
             e_ws = None, e_connected = False \<rparr>]
     \<and> connectionPromise (step sample_platform (SocketOpen 1) w) = Some 1
     \<and> promiseOf (step sample_platform (SocketOpen 1) w) 1 = Rejected (ClosedWithCode 1000)
     \<and> \<not> isConnected (step sample_platform (SocketOpen 1) w)" for w
  have "orphan (run sample_platform quick_reconnect (initial_world False))"
    by (simp add: quick_reconnect_def eval_defs orphan_def)
  then show ?thesis unfolding orphan_def .
qed

subsection \<open>Every socket has the handlers\<close>

lemma wired_inv_cong:
  assumes "listening w' = listening w" "socketsCreated w' = socketsCreated w"
  shows "wired_inv w' = wired_inv w"
  by (simp add: wired_inv_def assms)

lemma wired_inv_connect:
  assumes "wired_inv w"
  shows "wired_inv (snd (connect w))"
proof -
  consider (a) p where "connected_or_connecting w" "connectionPromise w = Some p"
    | (b) "connected_or_connecting w" "connectionPromise w = None"
    | (c) "\<not> connected_or_connecting w" "\<not> ctorThrows w"
    | (d) "\<not> connected_or_connecting w" "ctorThrows w"
    by (cases "connectionPromise w") auto
  then show ?thesis
  proof cases
    case a with assms show ?thesis by (simp add: connect_already wired_inv_def)
  next
    case b with assms show ?thesis
      by (simp add: connect_already_no_promise Promise_resolve_def wired_inv_def)
  next
    case c with assms show ?thesis
      by (auto simp add: connect_attempt wired_inv_def less_Suc_eq)
  next
    case d with assms show ?thesis by (simp add: connect_throws wired_inv_def)
  qed
qed

lemma wired_inv_sendCommand:
  assumes "wired_inv w"
  shows "wired_inv (sendCommand P c pl w)"
proof (cases "isConnected w")
  case True
  with assms show ?thesis by (simp add: sendCommand_connected wired_inv_def)
next
  case False
  show ?thesis
  proof (cases "should_trigger_connect w")
    case True
    let ?v = "console_say Log ''[WS] Triggering connection attempt before sending...''
            (console_say Log ''[WS] Connection not established. Waiting...'' w)"
    have "wired_inv ?v = wired_inv w" by (rule wired_inv_cong) simp_all
    with assms have "wired_inv (snd (connect ?v))" by (simp add: wired_inv_connect)
    then have "wired_inv ((snd (connect ?v))\<lparr>suspended := suspended w @
                 [(connectionPromise (snd (connect ?v)), c, pl)]\<rparr>)"
      by (simp add: wired_inv_def)
    with False True show ?thesis by (simp add: sendCommand_connects)
  next
    case no: False
    with False assms show ?thesis by (simp add: sendCommand_waits wired_inv_def)
  qed
qed

lemma wired_inv_handle:
  assumes "wired_inv w"
  shows "wired_inv (handle P e w)"
proof (cases e)
  case CallConnect
  with assms show ?thesis by (simp add: wired_inv_connect)
next
  case (CallSendCommand c pl)
  with assms show ?thesis by (simp add: wired_inv_sendCommand)
next
  case (TimerFire t)
  have "wired_inv (clearTimeout t w\<lparr>reconnectTimeoutId := None\<rparr>)"
    using assms by (simp add: wired_inv_def)
  then have "wired_inv (timeout_callback (clearTimeout t w))"
    unfolding timeout_callback_def by (rule wired_inv_connect)
  with assms TimerFire show ?thesis by simp
qed (use assms in \<open>simp_all add: wired_inv_def\<close>)

lemma wired_inv_run:
  assumes "wired_inv w"
  shows "wired_inv (run P evs w)"
  using assms
proof (induction evs arbitrary: w)
  case Nil
  then show ?case by simp
next
  case (Cons e evs)
  from Cons.prems have "wired_inv (handle P e w)" by (rule wired_inv_handle)
  then have "wired_inv (step P e w)" by (simp add: step_def wired_inv_def)
  then show ?case by (simp add: Cons.IH)
qed

lemma wired_inv_reachable: "wired_inv (run P evs (initial_world c))"
  by (rule wired_inv_run) (simp add: wired_inv_def initial_world_def)

lemma handle_close_wired:
  assumes "wired_inv w" "s < socketsCreated w" "readyStateOf w s \<noteq> CLOSED"
  shows "handle P (SocketClose s code) w = onclose code (set_readyState s CLOSED w)"
    and "handle P (SocketFail s code) w = onclose code (onerror (set_readyState s CLOSED w))"
  using assms by (simp_all add: wired_inv_def)

subsection \<open>At most one reconnect timeout\<close>

lemma scheduleReconnect_timers_cong:
  assumes "reconnectAttempts w' = reconnectAttempts w"
    "reconnectTimeoutId w' = reconnectTimeoutId w"
    "timers w' = timers w" "timersCreated w' = timersCreated w"
  shows "timers (scheduleReconnect w') = timers (scheduleReconnect w)"
    and "reconnectTimeoutId (scheduleReconnect w') = reconnectTimeoutId (scheduleReconnect w)"
    and "reconnectAttempts (scheduleReconnect w') = reconnectAttempts (scheduleReconnect w)"
    and "timersCreated (scheduleReconnect w') = timersCreated (scheduleReconnect w)"
  using assms
  by (simp_all add: scheduleReconnect_def Let_def setTimeout_def console_say_def)

lemma onclose_timer_fields:
  "timers (onclose code w) = (if code \<noteq> 1000 then timers (scheduleReconnect w) else timers w)"
  "reconnectTimeoutId (onclose code w) =
     (if code \<noteq> 1000 then reconnectTimeoutId (scheduleReconnect w) else reconnectTimeoutId w)"
  "reconnectAttempts (onclose code w) =
     (if code \<noteq> 1000 then reconnectAttempts (scheduleReconnect w) else reconnectAttempts w)"
  "timersCreated (onclose code w) =
     (if code \<noteq> 1000 then timersCreated (scheduleReconnect w) else timersCreated w)"
proof -
  let ?v = "emit ''disconnected'' NoArg ((console_say Warn ''[WS] Connection closed.'' w)\<lparr>ws := None\<rparr>)"
  let ?u = "case rejectConnectionPromise ?v of
              None \<Rightarrow> ?v
            | Some p \<Rightarrow> (reject p (ClosedWithCode code) ?v)
                \<lparr>resolveConnectionPromise := None, rejectConnectionPromise := None\<rparr>"
  have u: "reconnectAttempts ?u = reconnectAttempts w" "reconnectTimeoutId ?u = reconnectTimeoutId w"
    "timers ?u = timers w" "timersCreated ?u = timersCreated w"
    by (simp_all split: option.splits)
  have o: "onclose code w = (if code \<noteq> 1000 then scheduleReconnect ?u else ?u)"
    by (simp add: onclose_def Let_def)
  show "timers (onclose code w) = (if code \<noteq> 1000 then timers (scheduleReconnect w) else timers w)"
    unfolding o using u scheduleReconnect_timers_cong(1) [OF u] by simp
  show "reconnectTimeoutId (onclose code w) =
     (if code \<noteq> 1000 then reconnectTimeoutId (scheduleReconnect w) else reconnectTimeoutId w)"
    unfolding o using u scheduleReconnect_timers_cong(2) [OF u] by simp
  show "reconnectAttempts (onclose code w) =
     (if code \<noteq> 1000 then reconnectAttempts (scheduleReconnect w) else reconnectAttempts w)"
    unfolding o using u scheduleReconnect_timers_cong(3) [OF u] by simp
  show "timersCreated (onclose code w) =
     (if code \<noteq> 1000 then timersCreated (scheduleReconnect w) else timersCreated w)"
    unfolding o using u scheduleReconnect_timers_cong(4) [OF u] by simp
qed

lemma scheduleReconnect_one_timer:
  assumes "timer_inv w" "reconnectAttempts w < maxReconnectAttempts"
  shows "length (timers (scheduleReconnect w)) = 1"
proof (cases "truthy (reconnectTimeoutId w)")
  case True
  with assms have "length (map fst (timers w)) = 1"
    by (auto simp add: timer_inv_alt truthy_def)
  with assms True show ?thesis by (simp add: scheduleReconnect_pending)
next
  case False
  with assms have "timers w = []" by (auto simp add: timer_inv_alt truthy_def)
  with assms False show ?thesis by (simp add: scheduleReconnect_new)
qed

lemma scheduleReconnect_second:
  assumes "timer_inv w" "timers w \<noteq> []"
  shows "timers (scheduleReconnect w) = timers w"
    and "reconnectTimeoutId (scheduleReconnect w) = reconnectTimeoutId w"
    and "reconnectAttempts (scheduleReconnect w) = reconnectAttempts w"
proof -
  from assms have t: "truthy (reconnectTimeoutId w)"
    by (auto simp add: timer_inv_alt truthy_def)
  show "timers (scheduleReconnect w) = timers w"
    by (rule scheduleReconnect_cases [where w = w])
      (use t in \<open>simp_all add: scheduleReconnect_max scheduleReconnect_pending\<close>)
  show "reconnectTimeoutId (scheduleReconnect w) = reconnectTimeoutId w"
    by (rule scheduleReconnect_cases [where w = w])
      (use t in \<open>simp_all add: scheduleReconnect_max scheduleReconnect_pending\<close>)
  show "reconnectAttempts (scheduleReconnect w) = reconnectAttempts w"
    by (rule scheduleReconnect_cases [where w = w])
      (use t in \<open>simp_all add: scheduleReconnect_max scheduleReconnect_pending\<close>)
qed

lemma connect_timers:
  assumes "timer_inv w"
  shows "\<not> ctorThrows w \<Longrightarrow> timers (snd (connect w)) = []"
    and "\<not> ctorThrows w \<Longrightarrow> reconnectTimeoutId (snd (connect w)) = None"
    and "t \<in> fst ` set (timers w) \<Longrightarrow> t \<notin> fst ` set (timers (snd (connect w)))"
proof -
  note c = cancel_clears [OF assms]
  consider (a) p where "connected_or_connecting w" "connectionPromise w = Some p"
    | (b) "connected_or_connecting w" "connectionPromise w = None"
    | (c) "\<not> connected_or_connecting w" "\<not> ctorThrows w"
    | (d) "\<not> connected_or_connecting w" "ctorThrows w"
    by (cases "connectionPromise w") auto
  then have "(\<not> ctorThrows w \<longrightarrow> timers (snd (connect w)) = []
                \<and> reconnectTimeoutId (snd (connect w)) = None)
           \<and> (t \<in> fst ` set (timers w) \<longrightarrow> t \<notin> fst ` set (timers (snd (connect w))))"
  proof cases
    case a then show ?thesis using c by (simp add: connect_already)
  next
    case b then show ?thesis using c
      by (simp add: connect_already_no_promise Promise_resolve_def)
  next
    case c then show ?thesis using cancel_clears [OF assms] by (simp add: connect_attempt)
  next
    case d
    let ?v = "emit ''disconnected'' NoArg
                 (console_say Error ''[WS] Connection failed immediately:''
                   ((console_say Log ''[WS] Attempting to connect...'' (cancel_reconnect_timeout w))
                     \<lparr>promiseOf := (promiseOf w)(promisesCreated w := Pending),
                       promisesCreated := Suc (promisesCreated w),
                       connectionPromise := Some (promisesCreated w),
                       resolveConnectionPromise := Some (promisesCreated w),
                       rejectConnectionPromise := Some (promisesCreated w)\<rparr>))
              \<lparr>promiseOf := (promiseOf w)(promisesCreated w := Rejected ConstructorError)\<rparr>"
    have v: "timers ?v = []" "reconnectTimeoutId ?v = None" "timersCreated ?v = timersCreated w"
      using c by simp_all
    have "t \<notin> fst ` set (timers (scheduleReconnect ?v))" if "t \<in> fst ` set (timers w)"
    proof -
      from that assms have le: "t \<le> timersCreated w"
        by (cases "timers w") (auto simp add: timer_inv_alt)
      show ?thesis
        by (rule scheduleReconnect_cases [where w = ?v])
          (use v le in \<open>simp_all add: scheduleReconnect_max scheduleReconnect_pending
              scheduleReconnect_new\<close>)
    qed
    with d show ?thesis by (simp add: connect_throws)
  qed
  then show "\<not> ctorThrows w \<Longrightarrow> timers (snd (connect w)) = []"
    and "\<not> ctorThrows w \<Longrightarrow> reconnectTimeoutId (snd (connect w)) = None"
    and "t \<in> fst ` set (timers w) \<Longrightarrow> t \<notin> fst ` set (timers (snd (connect w)))"
    by simp_all
qed

text \<open>
  C3, as stated, fails where the Reconnect Counter is at its maximum: with the
  server down, the first attempt and five retries have failed or are under way; the
  closure of the sixth socket with code 1006 schedules no timeout.
\<close>

theorem closure_at_maximum_schedules_no_timer:
  "reconnectAttempts (run sample_platform server_down (initial_world False)) = 5
   \<and> ws (run sample_platform server_down (initial_world False)) = Some 5
   \<and> readyStateOf (run sample_platform server_down (initial_world False)) 5 = CONNECTING
   \<and> length (timers (onclose 1006 (run sample_platform server_down (initial_world False)))) = 0
   \<and> timers (step sample_platform (SocketFail 5 1006)
        (run sample_platform server_down (initial_world False))) = []"
proof -
  define ok where "ok w \<longleftrightarrow>
     reconnectAttempts w = 5 \<and> ws w = Some 5 \<and> readyStateOf w 5 = CONNECTING
     \<and> length (timers (onclose 1006 w)) = 0
     \<and> timers (step sample_platform (SocketFail 5 1006) w) = []" for w
  have "ok (run sample_platform server_down (initial_world False))"
    by (simp add: server_down_def eval_defs ok_def)
  then show ?thesis unfolding ok_def .
qed

text \<open>
  C3 (amended). In every state the event loop can reach, at most one timeout is
  outstanding. After the close handler has run for a code other than 1000 while the
  Reconnect Counter is below the maximum, exactly one is outstanding, and so it
  is after the task in which a socket closes or fails with such a code. A
  \<open>scheduleReconnect\<close> while one is outstanding changes neither the timeouts nor the
  counter. \<open>connect\<close> cancels the outstanding timeout: it is no longer outstanding
  afterwards, and unless the constructor of the socket throws none is.
\<close>

theorem at_most_one_reconnect_timer:
  assumes "w = run P evs (initial_world c)"
  shows "length (timers w) \<le> 1
       \<and> (code \<noteq> 1000 \<and> reconnectAttempts w < maxReconnectAttempts \<longrightarrow>
            length (timers (onclose code w)) = 1)
       \<and> (s < socketsCreated w \<and> readyStateOf w s \<noteq> CLOSED \<and> code \<noteq> 1000
            \<and> reconnectAttempts w < maxReconnectAttempts \<longrightarrow>
            length (timers (step P (SocketClose s code) w)) = 1 \<and>
            length (timers (step P (SocketFail s code) w)) = 1)
       \<and> (timers w \<noteq> [] \<longrightarrow>
            timers (scheduleReconnect w) = timers w \<and>
            reconnectTimeoutId (scheduleReconnect w) = reconnectTimeoutId w \<and>
            reconnectAttempts (scheduleReconnect w) = reconnectAttempts w)
       \<and> (\<forall>t. t \<in> fst ` set (timers w) \<longrightarrow> t \<notin> fst ` set (timers (snd (connect w))))
       \<and> (\<not> ctorThrows w \<longrightarrow>
            timers (snd (connect w)) = [] \<and> reconnectTimeoutId (snd (connect w)) = None)"
proof -
  from assms have inv: "timer_inv w" by (simp add: timer_inv_reachable)
  have 1: "length (timers w) \<le> 1" using inv by (rule timer_inv_length)
  have 2: "length (timers (onclose code w)) = 1"
    if "code \<noteq> 1000 \<and> reconnectAttempts w < maxReconnectAttempts"
    using that inv by (simp add: onclose_timer_fields scheduleReconnect_one_timer)
  have ev: "length (timers (step P (SocketClose s code) w)) = 1 \<and>
            length (timers (step P (SocketFail s code) w)) = 1"
    if h: "s < socketsCreated w \<and> readyStateOf w s \<noteq> CLOSED \<and> code \<noteq> 1000
            \<and> reconnectAttempts w < maxReconnectAttempts"
  proof -
    from assms have wired: "wired_inv w" by (simp add: wired_inv_reachable)
    let ?v = "set_readyState s CLOSED w"
    from h have hs: "s < socketsCreated w" "readyStateOf w s \<noteq> CLOSED" by simp_all
    note c = handle_close_wired(1) [OF wired hs, of P code]
      and f = handle_close_wired(2) [OF wired hs, of P code]
    have "length (timers (scheduleReconnect ?v)) = 1"
      using inv h by (intro scheduleReconnect_one_timer) simp_all
    moreover have "length (timers (scheduleReconnect (onerror ?v))) = 1"
      using inv h by (intro scheduleReconnect_one_timer) simp_all
    ultimately show ?thesis
      unfolding step_def c f using h by (simp add: onclose_timer_fields)
  qed
  have 3: "timers (scheduleReconnect w) = timers w \<and>
            reconnectTimeoutId (scheduleReconnect w) = reconnectTimeoutId w \<and>
            reconnectAttempts (scheduleReconnect w) = reconnectAttempts w"
    if "timers w \<noteq> []"
    using that inv by (simp add: scheduleReconnect_second)
  have 4: "t \<notin> fst ` set (timers (snd (connect w)))" if "t \<in> fst ` set (timers w)" for t
    using that inv by (rule connect_timers(3) [rotated])
  have 5: "timers (snd (connect w)) = [] \<and> reconnectTimeoutId (snd (connect w)) = None"
    if "\<not> ctorThrows w"
    using that inv by (simp add: connect_timers)
  from 1 2 ev 3 4 5 show ?thesis by blast
qed

theorem at_most_one_reconnect_timer_witness:
  "(1006::int) \<noteq> 1000
   \<and> reconnectAttempts (run sample_platform [CallConnect, SocketOpen 0] (initial_world False))
        < maxReconnectAttempts
   \<and> length (timers (onclose 1006
        (run sample_platform [CallConnect, SocketOpen 0] (initial_world False)))) = 1
   \<and> 0 < socketsCreated (run sample_platform [CallConnect, SocketOpen 0] (initial_world False))
   \<and> readyStateOf (run sample_platform [CallConnect, SocketOpen 0] (initial_world False)) 0
        \<noteq> CLOSED
   \<and> length (timers (step sample_platform (SocketClose 0 1006)
        (run sample_platform [CallConnect, SocketOpen 0] (initial_world False)))) = 1
   \<and> timers (run sample_platform [CallConnect, SocketFail 0 1006] (initial_world False)) \<noteq> []
   \<and> timers (scheduleReconnect
        (run sample_platform [CallConnect, SocketFail 0 1006] (initial_world False))) =
      timers (run sample_platform [CallConnect, SocketFail 0 1006] (initial_world False))
   \<and> 1 \<in> fst ` set (timers
        (run sample_platform [CallConnect, SocketFail 0 1006] (initial_world False)))
   \<and> \<not> ctorThrows (run sample_platform [CallConnect, SocketFail 0 1006] (initial_world False))
   \<and> timers (snd (connect
        (run sample_platform [CallConnect, SocketFail 0 1006] (initial_world False)))) = []"
proof -
  let ?o = "run sample_platform [CallConnect, SocketOpen 0] (initial_world False)"
  let ?f = "run sample_platform [CallConnect, SocketFail 0 1006] (initial_world False)"
  have o: "reconnectAttempts ?o < maxReconnectAttempts"
    "0 < socketsCreated ?o" "readyStateOf ?o 0 \<noteq> CLOSED"
    by (simp_all add: eval_defs)
  have n: "(1006::int) \<noteq> 1000" by simp
  have f: "timers ?f \<noteq> []" "1 \<in> fst ` set (timers ?f)" "\<not> ctorThrows ?f"
    by (simp_all add: eval_defs)
  note u = at_most_one_reconnect_timer
    [of ?o sample_platform "[CallConnect, SocketOpen 0]" False 1006, OF refl, where s = 0]
  from u o n have 1: "length (timers (onclose 1006 ?o)) = 1" by blast
  from u o n have 0: "length (timers (step sample_platform (SocketClose 0 1006) ?o)) = 1"
    by blast
  note t = at_most_one_reconnect_timer
    [of ?f sample_platform "[CallConnect, SocketFail 0 1006]" False 1006, OF refl]
  from t f have 2: "timers (scheduleReconnect ?f) = timers ?f" by blast
  from t f have 3: "timers (snd (connect ?f)) = []" by blast
  from o f n 0 1 2 3 show ?thesis by blast
qed

subsection \<open>The Reconnect Counter at its maximum\<close>





subsection \<open>disconnect\<close>

lemma quiet_cong:
  assumes "reconnectAttempts w' = reconnectAttempts w" "timers w' = timers w"
    "reconnectTimeoutId w' = reconnectTimeoutId w"
  shows "quiet w' = quiet w"
  by (simp add: quiet_def assms)

lemma quiet_scheduleReconnect:
  assumes "quiet w"
  shows "quiet (scheduleReconnect w)"
proof -
  from assms have "maxReconnectAttempts \<le> reconnectAttempts w" by (simp add: quiet_def)
  then have "scheduleReconnect w =
      console_say Error ''[WS] Max reconnect attempts reached. Giving up.'' w"
    by (rule scheduleReconnect_max)
  with assms show ?thesis by (simp add: quiet_def)
qed

lemma quiet_onclose:
  assumes "quiet w"
  shows "quiet (onclose code w)"
  using assms quiet_scheduleReconnect [OF assms]
  by (simp add: quiet_def onclose_timer_fields)

lemma quiet_connect:
  assumes "quiet w"
  shows "quiet (snd (connect w))"
proof -
  from assms have id: "cancel_reconnect_timeout w = w"
    by (simp add: quiet_def cancel_reconnect_timeout_id)
  consider (a) p where "connected_or_connecting w" "connectionPromise w = Some p"
    | (b) "connected_or_connecting w" "connectionPromise w = None"
    | (c) "\<not> connected_or_connecting w" "\<not> ctorThrows w"
    | (d) "\<not> connected_or_connecting w" "ctorThrows w"
    by (cases "connectionPromise w") auto
  then show ?thesis
  proof cases
    case a with assms id show ?thesis by (simp add: connect_already quiet_def)
  next
    case b with assms id show ?thesis
      by (simp add: connect_already_no_promise Promise_resolve_def quiet_def)
  next
    case c with assms id show ?thesis by (simp add: connect_attempt quiet_def)
  next
    case d
    let ?v = "emit ''disconnected'' NoArg
                 (console_say Error ''[WS] Connection failed immediately:''
                   ((console_say Log ''[WS] Attempting to connect...'' w)
                     \<lparr>promiseOf := (promiseOf w)(promisesCreated w := Pending),
                       promisesCreated := Suc (promisesCreated w),
                       connectionPromise := Some (promisesCreated w),
                       resolveConnectionPromise := Some (promisesCreated w),
                       rejectConnectionPromise := Some (promisesCreated w)\<rparr>))
              \<lparr>promiseOf := (promiseOf w)(promisesCreated w := Rejected ConstructorError)\<rparr>"
    have "quiet ?v = quiet w" by (rule quiet_cong) simp_all
    with assms have "quiet (scheduleReconnect ?v)" by (simp add: quiet_scheduleReconnect)
    with d id show ?thesis by (simp add: connect_throws)
  qed
qed

lemma quiet_sendCommand:
  assumes "quiet w"
  shows "quiet (sendCommand P c pl w)"
proof (cases "isConnected w")
  case True
  have "quiet (send_if_connected P c pl w) = quiet w" by (rule quiet_cong) simp_all
  with True assms show ?thesis by (simp add: sendCommand_connected)
next
  case False
  show ?thesis
  proof (cases "should_trigger_connect w")
    case True
    let ?v = "console_say Log ''[WS] Triggering connection attempt before sending...''
            (console_say Log ''[WS] Connection not established. Waiting...'' w)"
    have "quiet ?v = quiet w" by (rule quiet_cong) simp_all
    with assms have "quiet (snd (connect ?v))" by (simp add: quiet_connect)
    then have "quiet ((snd (connect ?v))\<lparr>suspended := suspended w @
                 [(connectionPromise (snd (connect ?v)), c, pl)]\<rparr>)"
      by (simp add: quiet_def)
    with False True show ?thesis by (simp add: sendCommand_connects)
  next
    case no: False
    with False assms show ?thesis by (simp add: sendCommand_waits quiet_def)
  qed
qed

lemma quiet_disconnect:
  assumes "quiet w"
  shows "quiet (snd (disconnect r w))"
proof -
  from assms have "cancel_reconnect_timeout w = w"
    by (simp add: quiet_def cancel_reconnect_timeout_id)
  with assms show ?thesis by (simp add: quiet_def)
qed

lemma quiet_handle:
  assumes "quiet w" "\<not> opens e"
  shows "quiet (handle P e w)"
proof (cases e)
  case CallConnect
  with assms show ?thesis by (simp add: quiet_connect)
next
  case (CallDisconnect r)
  with assms show ?thesis by (simp add: quiet_disconnect)
next
  case (CallSendCommand c pl)
  with assms show ?thesis by (simp add: quiet_sendCommand)
next
  case (CallOn ev f c)
  with assms show ?thesis by (simp add: quiet_def)
next
  case (SocketOpen s)
  with assms show ?thesis by simp
next
  case (SocketMessage s d)
  with assms show ?thesis by (simp add: quiet_def)
next
  case (SocketClosing s)
  with assms show ?thesis by (simp add: quiet_def)
next
  case (SocketFail s code)
  have "quiet (onerror (set_readyState s CLOSED w)) = quiet w"
    by (rule quiet_cong) simp_all
  with assms have "quiet (onclose code (onerror (set_readyState s CLOSED w)))"
    by (simp add: quiet_onclose)
  moreover have "quiet (set_readyState s CLOSED w) = quiet w"
    by (rule quiet_cong) simp_all
  ultimately show ?thesis using assms SocketFail by simp
next
  case (SocketClose s code)
  have q: "quiet (set_readyState s CLOSED w) = quiet w"
    by (rule quiet_cong) simp_all
  with assms have "quiet (onclose code (set_readyState s CLOSED w))"
    by (simp add: quiet_onclose)
  with q show ?thesis using assms SocketClose by simp
next
  case (TimerFire t)
  with assms show ?thesis by (simp add: quiet_def)
qed

lemma quiet_run:
  assumes "quiet w" "\<forall>e \<in> set evs. \<not> opens e"
  shows "quiet (run P evs w)"
  using assms
proof (induction evs arbitrary: w)
  case Nil
  then show ?case by simp
next
  case (Cons e evs)
  then have "quiet (handle P e w)" by (simp add: quiet_handle)
  then have "quiet (step P e w)" by (simp add: step_def quiet_def)
  with Cons show ?case by simp
qed

text \<open>
  C5. The claim asks of \<open>disconnect\<close> that it closes the socket and that no
  automatic reconnect fires afterwards; the comment of line 189 says the same. But
  the close handler clears the handle without asking which socket closed. A run of
  the code: the application connects, the socket opens, the application
  disconnects and connects again at once (socket 1); the close of the first socket
  then runs line 107, and the handle, which named socket 1, is cleared while
  socket 1 is still connecting. The application now calls \<open>disconnect\<close>: the test
  of line 191 finds no socket, so socket 1 is not closed. It opens, line 71 sets
  the counter to 0, and when it is lost with code 1006 a timeout is scheduled and
  fires: a third socket is created without any call from the application.
\<close>

theorem reconnect_after_disconnect:
  "ws (run sample_platform quick_reconnect (initial_world False)) = None
   \<and> readyStateOf (run sample_platform quick_reconnect (initial_world False)) 1 = CONNECTING
   \<and> socketsCreated (run sample_platform quick_reconnect (initial_world False)) = 2
   \<and> fst (disconnect ''bye'' (run sample_platform quick_reconnect (initial_world False)))
        = Returns
   \<and> closeCalls (snd (disconnect ''bye''
        (run sample_platform quick_reconnect (initial_world False)))) = [(0, 1000, ''bye'')]
   \<and> readyStateOf (snd (disconnect ''bye''
        (run sample_platform quick_reconnect (initial_world False)))) 1 = CONNECTING
   \<and> reconnectAttempts (snd (disconnect ''bye''
        (run sample_platform quick_reconnect (initial_world False)))) = 5
   \<and> reconnectAttempts (run sample_platform [SocketOpen 1]
        (snd (disconnect ''bye'' (run sample_platform quick_reconnect (initial_world False)))))
        = 0
   \<and> timers (run sample_platform [SocketOpen 1, SocketClose 1 1006]
        (snd (disconnect ''bye'' (run sample_platform quick_reconnect (initial_world False)))))
        = [(1, 3000)]
   \<and> socketsCreated (run sample_platform [SocketOpen 1, SocketClose 1 1006, TimerFire 1]
        (snd (disconnect ''bye'' (run sample_platform quick_reconnect (initial_world False)))))
        = 3"
proof -
  define stale where "stale w \<longleftrightarrow>
     ws w = None \<and> readyStateOf w 1 = CONNECTING \<and> socketsCreated w = 2
     \<and> fst (disconnect ''bye'' w) = Returns
     \<and> closeCalls (snd (disconnect ''bye'' w)) = [(0, 1000, ''bye'')]
     \<and> readyStateOf (snd (disconnect ''bye'' w)) 1 = CONNECTING
     \<and> reconnectAttempts (snd (disconnect ''bye'' w)) = 5
     \<and> reconnectAttempts (run sample_platform [SocketOpen 1] (snd (disconnect ''bye'' w))) = 0
     \<and> timers (run sample_platform [SocketOpen 1, SocketClose 1 1006]
          (snd (disconnect ''bye'' w))) = [(1, 3000)]
     \<and> socketsCreated (run sample_platform [SocketOpen 1, SocketClose 1 1006, TimerFire 1]
          (snd (disconnect ''bye'' w))) = 3" for w
  have "stale (run sample_platform quick_reconnect (initial_world False))"
    by (simp add: quick_reconnect_def eval_defs stale_def)
  then show ?thesis unfolding stale_def .
qed

text \<open>
  A reason longer than 123 bytes makes the browser's \<^verbatim>\<open>close\<close> throw at line
  193: the timeout is cancelled and the counter set, but the handle stays and
  nothing is emitted.
\<close>

lemma disconnect_long_reason_throws:
  "fst (disconnect (replicate 124 (CHR ''x''))
        (run sample_platform [CallConnect, SocketOpen 0] (initial_world False))) = Throws
   \<and> ws (snd (disconnect (replicate 124 (CHR ''x''))
        (run sample_platform [CallConnect, SocketOpen 0] (initial_world False)))) = Some 0
   \<and> isConnected (snd (disconnect (replicate 124 (CHR ''x''))
        (run sample_platform [CallConnect, SocketOpen 0] (initial_world False))))
   \<and> emitted (snd (disconnect (replicate 124 (CHR ''x''))
        (run sample_platform [CallConnect, SocketOpen 0] (initial_world False)))) =
      emitted (run sample_platform [CallConnect, SocketOpen 0] (initial_world False))"
proof -
  define long where "long w \<longleftrightarrow>
     fst (disconnect (replicate 124 (CHR ''x'')) w) = Throws
     \<and> ws (snd (disconnect (replicate 124 (CHR ''x'')) w)) = Some 0
     \<and> isConnected (snd (disconnect (replicate 124 (CHR ''x'')) w))
     \<and> emitted (snd (disconnect (replicate 124 (CHR ''x'')) w)) = emitted w" for w
  have "long (run sample_platform [CallConnect, SocketOpen 0] (initial_world False))"
    by (simp add: eval_defs long_def)
  then show ?thesis unfolding long_def .
qed

text \<open>
  What holds of \<open>disconnect\<close>. In every state the event loop can reach, it leaves no
  timeout outstanding and the Reconnect Counter at the maximum. It returns normally
  when no socket is held, and whenever the reason has at most 123 bytes; when it
  returns, it has called \<^verbatim>\<open>close(1000, reason)\<close> on the socket it held, if any, the
  handle is cleared, the service is not connected, and \<open>disconnected\<close> has been
  emitted once. Afterwards a timeout can only be scheduled once some socket has
  opened: line 71 is the one place that lowers the counter.
\<close>

lemma disconnect_returning:
  assumes "w = run P evs (initial_world c)"
  shows "(ws w = None \<longrightarrow> fst (disconnect r w) = Returns)
       \<and> (length r \<le> 123 \<longrightarrow> fst (disconnect r w) = Returns)
       \<and> timers (snd (disconnect r w)) = []
       \<and> reconnectTimeoutId (snd (disconnect r w)) = None
       \<and> reconnectAttempts (snd (disconnect r w)) = maxReconnectAttempts
       \<and> (fst (disconnect r w) = Returns \<longrightarrow>
            closeCalls (snd (disconnect r w)) =
              closeCalls w @ (case ws w of None \<Rightarrow> [] | Some s \<Rightarrow> [(s, 1000, r)])
          \<and> ws (snd (disconnect r w)) = None
          \<and> \<not> isConnected (snd (disconnect r w))
          \<and> emitted (snd (disconnect r w)) =
              emitted w @
                [\<lparr> e_name = ''disconnected'', e_arg = NoArg,
                    e_delivered = subscribers ''disconnected'' w,
                    e_ws = None, e_connected = False \<rparr>])
       \<and> (\<forall>evs'. (\<forall>e \<in> set evs'. \<not> opens e) \<longrightarrow>
            timers (run P evs' (snd (disconnect r w))) = [])"
proof -
  from assms have inv: "timer_inv w" by (simp add: timer_inv_reachable)
  note c = cancel_clears [OF inv]
  have 1: "ws w = None \<longrightarrow> fst (disconnect r w) = Returns"
    by (simp add: disconnect_no_socket)
  have 2: "length r \<le> 123 \<longrightarrow> fst (disconnect r w) = Returns"
    by (cases "ws w") (simp_all add: disconnect_no_socket disconnect_socket)
  have 3: "timers (snd (disconnect r w)) = []" "reconnectTimeoutId (snd (disconnect r w)) = None"
    "reconnectAttempts (snd (disconnect r w)) = maxReconnectAttempts"
    using c by simp_all
  have 4: "closeCalls (snd (disconnect r w)) =
              closeCalls w @ (case ws w of None \<Rightarrow> [] | Some s \<Rightarrow> [(s, 1000, r)])
          \<and> ws (snd (disconnect r w)) = None
          \<and> \<not> isConnected (snd (disconnect r w))
          \<and> emitted (snd (disconnect r w)) =
              emitted w @
                [\<lparr> e_name = ''disconnected'', e_arg = NoArg,
                    e_delivered = subscribers ''disconnected'' w,
                    e_ws = None, e_connected = False \<rparr>]"
    if "fst (disconnect r w) = Returns"
  proof (rule disconnect_cases [where w = w and r = r])
    assume "ws w = None"
    then show ?thesis
      by (simp add: disconnect_no_socket emit_def isConnected_def subscribers_def)
  next
    fix s assume "ws w = Some s" "length r \<le> 123"
    then show ?thesis
      by (simp add: disconnect_socket emit_def isConnected_def subscribers_def)
  next
    fix s assume "ws w = Some s" "123 < length r"
    with that show ?thesis by (simp add: disconnect_throws)
  qed
  have "quiet (snd (disconnect r w))"
    using 3 by (simp add: quiet_def)
  then have 5: "timers (run P evs' (snd (disconnect r w))) = []"
    if "\<forall>e \<in> set evs'. \<not> opens e" for evs'
    using that quiet_run [of "snd (disconnect r w)" evs' P] by (simp add: quiet_def)
  from 1 2 3 4 5 show ?thesis by blast
qed

lemma disconnect_returning_example:
  "ws (initial_world False) = None
   \<and> fst (disconnect ''bye'' (initial_world False)) = Returns
   \<and> length ''bye'' \<le> 123
   \<and> fst (disconnect ''bye''
        (run sample_platform [CallConnect, SocketOpen 0] (initial_world False))) = Returns
   \<and> closeCalls (snd (disconnect ''bye''
        (run sample_platform [CallConnect, SocketOpen 0] (initial_world False)))) =
      [(0, 1000, ''bye'')]
   \<and> \<not> isConnected (snd (disconnect ''bye''
        (run sample_platform [CallConnect, SocketOpen 0] (initial_world False))))
   \<and> \<not> opens (SocketClose 0 1006) \<and> \<not> opens CallConnect \<and> \<not> opens (SocketFail 1 1006)
   \<and> timers (run sample_platform [SocketClose 0 1006, CallConnect, SocketFail 1 1006]
        (snd (disconnect ''bye''
          (run sample_platform [CallConnect, SocketOpen 0] (initial_world False))))) = []"
proof -
  let ?o = "run sample_platform [CallConnect, SocketOpen 0] (initial_world False)"
  have i: "ws (initial_world False) = None" by (simp add: initial_world_def)
  have l: "length ''bye'' \<le> 123" by simp
  have n: "\<forall>e \<in> set [SocketClose 0 1006, CallConnect, SocketFail 1 1006]. \<not> opens e"
    by simp
  have o: "ws ?o = Some 0" "closeCalls ?o = []"
    by (simp_all add: eval_defs)
  from disconnect_returning [of "initial_world False" sample_platform "[]" False "''bye''"] i
  have 1: "fst (disconnect ''bye'' (initial_world False)) = Returns" by simp
  note t = disconnect_returning [of ?o sample_platform "[CallConnect, SocketOpen 0]" False "''bye''",
      OF refl]
  from t l have 2: "fst (disconnect ''bye'' ?o) = Returns" by blast
  from t 2 have "closeCalls (snd (disconnect ''bye'' ?o)) =
              closeCalls ?o @ (case ws ?o of None \<Rightarrow> [] | Some s \<Rightarrow> [(s, 1000, ''bye'')])"
    by blast
  with o have 3: "closeCalls (snd (disconnect ''bye'' ?o)) = [(0, 1000, ''bye'')]" by simp
  from t 2 have 4: "\<not> isConnected (snd (disconnect ''bye'' ?o))" by blast
  from t n have 5: "timers (run sample_platform [SocketClose 0 1006, CallConnect, SocketFail 1 1006]
        (snd (disconnect ''bye'' ?o))) = []" by blast
  have n': "\<not> opens (SocketClose 0 1006)" "\<not> opens CallConnect" "\<not> opens (SocketFail 1 1006)"
    by simp_all
  from i l n' 1 2 3 4 5 show ?thesis by blast
qed

subsection \<open>Routing a well-formed frame\<close>

lemma count_subscribers:
  "count_list (subscribers t w) (f, c) = count_list (listeners w) (t, f, c)"
proof -
  have "count_list (map snd (filter (\<lambda>l. fst l = t) ls)) (f, c) = count_list ls (t, f, c)"
    for ls :: "(string \<times> nat \<times> nat) list"
    by (induction ls) auto
  then show ?thesis by (simp add: subscribers_def)
qed

lemma isConnected_same [simp]:
  "isConnected (console_say l m w) = isConnected w"
  "isConnected (emit ev a w) = isConnected w"
  by (simp_all add: isConnected_def split: option.splits)

lemma subscribers_same [simp]:
  "subscribers t (console_say l m w) = subscribers t w"
  "subscribers t (emit ev a w) = subscribers t w"
  by (simp_all add: subscribers_def)

lemma emitted_emit:
  "emitted (emit ev a w) =
     emitted w @
       [\<lparr> e_name = ev, e_arg = a, e_delivered = subscribers ev w,
           e_ws = ws w, e_connected = isConnected w \<rparr>]"
  by (simp add: emit_def)

lemma onmessage_well_formed:
  assumes "JSON_parse P d = Some (JObj kvs)" "map_of kvs ''type'' = Some (JStr t)"
  shows "emitted (onmessage P d w) =
           emitted w @
             [\<lparr> e_name = ''message'', e_arg = OneArg (JObj kvs),
                 e_delivered = subscribers ''message'' w,
                 e_ws = ws w, e_connected = isConnected w \<rparr>,
              \<lparr> e_name = t,
                 e_arg = OneArg (case map_of kvs ''payload'' of None \<Rightarrow> JUndefined | Some v \<Rightarrow> v),
                 e_delivered = subscribers t w,
                 e_ws = ws w, e_connected = isConnected w \<rparr>]"
  using assms by (simp add: onmessage_def Let_def emitted_emit)

text \<open>
  C7, as stated, fails for a frame whose type is \<open>message\<close>: a callback registered
  once for \<open>message\<close> is invoked twice for that one frame, first with the frame and
  then with its payload.
\<close>

theorem message_typed_frame_invokes_twice:
  "JSON_parse sample_platform ''message frame'' =
     Some (JObj [(''type'', JStr ''message''), (''payload'', JNull)])
   \<and> count_list (listeners (on_ev ''message'' 7 0 (initial_world False))) (''message'', 7, 0) = 1
   \<and> map e_arg (emitted (onmessage sample_platform ''message frame''
        (on_ev ''message'' 7 0 (initial_world False)))) =
      [OneArg (JObj [(''type'', JStr ''message''), (''payload'', JNull)]), OneArg JNull]
   \<and> invoked_since (on_ev ''message'' 7 0 (initial_world False))
        (onmessage sample_platform ''message frame''
          (on_ev ''message'' 7 0 (initial_world False))) = [(7, 0), (7, 0)]"
  by (simp add: sample_platform_def message_frame_def on_ev_def initial_world_def
      onmessage_def Let_def emit_def console_say_def subscribers_def isConnected_def
      invoked_since_def)

text \<open>
  C7 (amended). For every frame that parses to an object whose \<open>type\<close> is a string,
  the handler emits \<open>message\<close> with the whole frame and then the event named by the
  type with the payload only. Each emit invokes the callbacks registered for its
  name, once per registration and in registration order: a registration is added
  at the end, and the deliveries for a name are as many as its registrations. So a
  callback registered once for the type of the frame, and not for \<open>message\<close>, is
  invoked exactly once for the frame if the type is not \<open>message\<close>.
\<close>

theorem well_formed_frame_routed:
  assumes "JSON_parse P d = Some (JObj kvs)"
    and "map_of kvs ''type'' = Some (JStr t)"
  shows "emitted (onmessage P d w) =
           emitted w @
             [\<lparr> e_name = ''message'', e_arg = OneArg (JObj kvs),
                 e_delivered = subscribers ''message'' w,
                 e_ws = ws w, e_connected = isConnected w \<rparr>,
              \<lparr> e_name = t,
                 e_arg = OneArg (case map_of kvs ''payload'' of None \<Rightarrow> JUndefined | Some v \<Rightarrow> v),
                 e_delivered = subscribers t w,
                 e_ws = ws w, e_connected = isConnected w \<rparr>]
       \<and> subscribers t (on_ev t f c w) = subscribers t w @ [(f, c)]
       \<and> (t' \<noteq> t \<longrightarrow> subscribers t (on_ev t' f c w) = subscribers t w)
       \<and> count_list (subscribers t w) (f, c) = count_list (listeners w) (t, f, c)
       \<and> (t \<noteq> ''message'' \<and> count_list (listeners w) (t, f, c) = 1
            \<and> count_list (listeners w) (''message'', f, c) = 0 \<longrightarrow>
          count_list (invoked_since w (onmessage P d w)) (f, c) = 1)"
proof -
  note e = onmessage_well_formed [OF assms, of w]
  have 2: "subscribers t (on_ev t f c w) = subscribers t w @ [(f, c)]"
    by (simp add: subscribers_def)
  have 3: "t' \<noteq> t \<longrightarrow> subscribers t (on_ev t' f c w) = subscribers t w"
    by (simp add: subscribers_def)
  have 4: "count_list (subscribers t w) (f, c) = count_list (listeners w) (t, f, c)"
    by (rule count_subscribers)
  have i: "invoked_since w (onmessage P d w) = subscribers ''message'' w @ subscribers t w"
    by (simp add: invoked_since_def e)
  have 5: "count_list (invoked_since w (onmessage P d w)) (f, c) = 1"
    if "t \<noteq> ''message'' \<and> count_list (listeners w) (t, f, c) = 1
            \<and> count_list (listeners w) (''message'', f, c) = 0"
    using that by (simp add: i count_subscribers)
  from e 2 3 4 5 show ?thesis by blast
qed

theorem well_formed_frame_routed_witness:
  "JSON_parse sample_platform ''description frame'' =
     Some (JObj [(''type'', JStr ''description''),
                 (''payload'', JObj [(''description'', JStr ''A dark room.'')])])
   \<and> map_of [(''type'', JStr ''description''),
             (''payload'', JObj [(''description'', JStr ''A dark room.'')])] ''type''
       = Some (JStr ''description'')
   \<and> ''description'' \<noteq> ''message''
   \<and> count_list (listeners (on_ev ''description'' 7 0 (initial_world False)))
        (''description'', 7, 0) = 1
   \<and> count_list (listeners (on_ev ''description'' 7 0 (initial_world False)))
        (''message'', 7, 0) = 0
   \<and> count_list (invoked_since (on_ev ''description'' 7 0 (initial_world False))
        (onmessage sample_platform ''description frame''
          (on_ev ''description'' 7 0 (initial_world False)))) (7, 0) = 1
   \<and> map e_arg (emitted (onmessage sample_platform ''description frame''
        (on_ev ''description'' 7 0 (initial_world False)))) =
      [OneArg (JObj [(''type'', JStr ''description''),
                  (''payload'', JObj [(''description'', JStr ''A dark room.'')])]),
       OneArg (JObj [(''description'', JStr ''A dark room.'')])]"
proof -
  let ?kvs = "[(''type'', JStr ''description''),
               (''payload'', JObj [(''description'', JStr ''A dark room.'')])]"
  let ?w = "on_ev ''description'' 7 0 (initial_world False)"
  have p: "JSON_parse sample_platform ''description frame'' = Some (JObj ?kvs)"
    by (simp add: sample_platform_def description_frame_def)
  have m: "map_of ?kvs ''type'' = Some (JStr ''description'')" by simp
  have n: "''description'' \<noteq> ''message''" by simp
  have l: "count_list (listeners ?w) (''description'', 7, 0) = 1"
    "count_list (listeners ?w) (''message'', 7, 0) = 0" "emitted ?w = []"
    by (simp_all add: initial_world_def)
  note t = well_formed_frame_routed [OF p m, where w = ?w and f = 7 and c = 0]
  from t n l have 1: "count_list (invoked_since ?w
        (onmessage sample_platform ''description frame'' ?w)) (7, 0) = 1" by blast
  from t have "emitted (onmessage sample_platform ''description frame'' ?w) =
           emitted ?w @
             [\<lparr> e_name = ''message'', e_arg = OneArg (JObj ?kvs),
                 e_delivered = subscribers ''message'' ?w,
                 e_ws = ws ?w, e_connected = isConnected ?w \<rparr>,
              \<lparr> e_name = ''description'',
                 e_arg = OneArg (case map_of ?kvs ''payload'' of None \<Rightarrow> JUndefined | Some v \<Rightarrow> v),
                 e_delivered = subscribers ''description'' ?w,
                 e_ws = ws ?w, e_connected = isConnected ?w \<rparr>]" by blast
  with l(3) have 2: "map e_arg (emitted (onmessage sample_platform ''description frame'' ?w)) =
      [OneArg (JObj ?kvs), OneArg (JObj [(''description'', JStr ''A dark room.'')])]"
    by simp
  from p m n l(1) l(2) 1 2 show ?thesis by blast
qed

subsection \<open>sendCommand while disconnected\<close>

text \<open>
  Before any attempt there is no promise, and the test of line 152 succeeds: the
  command of the game scene starts the one attempt, waits, and is transmitted
  once the socket has opened; if the socket fails instead, one \<open>error\<close> follows
  the transport's own and nothing is transmitted.
\<close>

lemma sendCommand_first_call_connects:
  "socketsCreated (step sample_platform look_command (initial_world False)) = 1
   \<and> suspended (step sample_platform look_command (initial_world False)) =
        [(Some 0, ''PROCESS_INPUT'', JObj [(''inputText'', JStr ''look'')])]
   \<and> transmitted (step sample_platform look_command (initial_world False)) = []
   \<and> transmitted (run sample_platform [look_command, SocketOpen 0] (initial_world False)) =
        [(0, ''PROCESS_INPUT'')]
   \<and> socketsCreated (run sample_platform [look_command, SocketOpen 0] (initial_world False)) = 1
   \<and> transmitted (run sample_platform [look_command, SocketFail 0 1006] (initial_world False))
        = []
   \<and> map e_name (emitted
        (run sample_platform [look_command, SocketFail 0 1006] (initial_world False))) =
        [''error'', ''disconnected'', ''error'']"
  by (simp add: look_command_def eval_defs)

text \<open>
  C1 asks of \<open>sendCommand\<close>, called while the connection is not open and no
  attempt is in flight, that it triggers one \<open>connect\<close>. The test of line 152
  looks for a socket in state CLOSED, but the close handler and \<open>disconnect\<close> have
  cleared the handle by then, so once a promise exists the test is false whenever
  the handle is \<^verbatim>\<open>null\<close>. Two runs of the code. With the server down and every
  retry used up (no socket, no timeout outstanding), the command of the game scene
  creates no socket; the call continues on the rejected promise of the last
  attempt, emits \<open>error\<close> and transmits nothing. After an established connection
  is lost with code 1006, the same command creates no socket either; the promise
  it awaits is the fulfilled one of the lost connection, and the call emits
  \<open>error\<close> because the service is not connected.
\<close>

theorem sendCommand_after_closure_starts_no_attempt:
  "ws (run sample_platform (server_down @ [SocketFail 5 1006]) (initial_world False)) = None
   \<and> timers (run sample_platform (server_down @ [SocketFail 5 1006]) (initial_world False)) = []
   \<and> socketsCreated
        (run sample_platform (server_down @ [SocketFail 5 1006]) (initial_world False)) = 6
   \<and> socketsCreated (step sample_platform look_command
        (run sample_platform (server_down @ [SocketFail 5 1006]) (initial_world False))) = 6
   \<and> ws (step sample_platform look_command
        (run sample_platform (server_down @ [SocketFail 5 1006]) (initial_world False))) = None
   \<and> transmitted (step sample_platform look_command
        (run sample_platform (server_down @ [SocketFail 5 1006]) (initial_world False))) = []
   \<and> map (\<lambda>e. (e_name e, e_arg e)) (drop 12 (emitted (step sample_platform look_command
        (run sample_platform (server_down @ [SocketFail 5 1006]) (initial_world False))))) =
      [(''error'', error_message ''Failed to connect to server to send command.'')]
   \<and> ws (run sample_platform [CallConnect, SocketOpen 0, SocketClose 0 1006]
        (initial_world False)) = None
   \<and> promiseOf (run sample_platform [CallConnect, SocketOpen 0, SocketClose 0 1006]
        (initial_world False)) 0 = Fulfilled
   \<and> socketsCreated (run sample_platform [CallConnect, SocketOpen 0, SocketClose 0 1006]
        (initial_world False)) = 1
   \<and> socketsCreated (step sample_platform look_command
        (run sample_platform [CallConnect, SocketOpen 0, SocketClose 0 1006]
          (initial_world False))) = 1
   \<and> transmitted (step sample_platform look_command
        (run sample_platform [CallConnect, SocketOpen 0, SocketClose 0 1006]
          (initial_world False))) = []
   \<and> map (\<lambda>e. (e_name e, e_arg e)) (drop 2 (emitted (step sample_platform look_command
        (run sample_platform [CallConnect, SocketOpen 0, SocketClose 0 1006]
          (initial_world False))))) =
      [(''error'', error_message ''Cannot send command, WebSocket is not connected.'')]"
proof -
  define down where "down w \<longleftrightarrow>
     ws w = None \<and> timers w = [] \<and> socketsCreated w = 6
     \<and> socketsCreated (step sample_platform look_command w) = 6
     \<and> ws (step sample_platform look_command w) = None
     \<and> transmitted (step sample_platform look_command w) = []
     \<and> map (\<lambda>e. (e_name e, e_arg e))
          (drop 12 (emitted (step sample_platform look_command w))) =
        [(''error'', error_message ''Failed to connect to server to send command.'')]" for w
  define lost where "lost w \<longleftrightarrow>
     ws w = None \<and> promiseOf w 0 = Fulfilled \<and> socketsCreated w = 1
     \<and> socketsCreated (step sample_platform look_command w) = 1
     \<and> transmitted (step sample_platform look_command w) = []
     \<and> map (\<lambda>e. (e_name e, e_arg e))
          (drop 2 (emitted (step sample_platform look_command w))) =
        [(''error'', error_message ''Cannot send command, WebSocket is not connected.'')]" for w
  have 1: "down (run sample_platform (server_down @ [SocketFail 5 1006]) (initial_world False))"
    by (simp add: server_down_def look_command_def eval_defs down_def)
  have 2: "lost (run sample_platform [CallConnect, SocketOpen 0, SocketClose 0 1006]
        (initial_world False))"
    by (simp add: look_command_def eval_defs lost_def)
  from 1 2 show ?thesis unfolding down_def lost_def by blast
qed

end
